theory Spec2Isabelle
  imports Complex_Main
begin

section \<open>Shopee Ads Monitor: budget arithmetic, decision engine, executor, snapshots\<close>

text \<open>
  A shallow embedding of \<^verbatim>\<open>src/shopee_ads_monitor.py\<close>: \<^verbatim>\<open>BudgetManager\<close>,
  \<^verbatim>\<open>AutoBudgetEngine\<close> and \<^verbatim>\<open>SnapshotManager.cleanup_old_snapshots\<close>.

  Modelling conventions.
  \<^item> Python \<^verbatim>\<open>float\<close> values (spend, budget, ROAS, thresholds) are exact reals; Python
    \<^verbatim>\<open>int\<close> values are \<open>int\<close>. Rounding error, NaN and infinities are outside the model.
  \<^item> A campaign, a snapshot and an action are Python dicts read with \<^verbatim>\<open>.get(key, default)\<close>;
    they are records whose fields are options, \<open>None\<close> for an absent key, and every default
    of the source is written where the source writes it.
  \<^item> The clock (\<^verbatim>\<open>time.time()\<close>, \<^verbatim>\<open>datetime.now()\<close>) is an argument, read once per call,
    with the epoch time in whole milliseconds.
  \<^item> The Firebase store is a value passed in and returned; its reads and writes succeed.
  \<^item> Strings are lists of 8-bit characters.
\<close>

subsection \<open>Python string primitives used by the engine\<close>

definition is_space :: "char \<Rightarrow> bool" where
  \<comment> \<open>\<^verbatim>\<open>str.isspace\<close> on the code points below 256: what \<^verbatim>\<open>str.strip()\<close> removes\<close>
  "is_space c = (of_char c \<in> {9::nat, 10, 11, 12, 13, 28, 29, 30, 31, 32, 133, 160})"

definition is_int_space :: "char \<Rightarrow> bool" where
  \<comment> \<open>the blanks \<^verbatim>\<open>int()\<close> accepts around a numeral: the C \<^verbatim>\<open>isspace\<close> set, and the two
      blanks above 127 that it turns into a space; not the separators 28 to 31\<close>
  "is_int_space c = (of_char c \<in> {9::nat, 10, 11, 12, 13, 32, 133, 160})"

definition strip_with :: "(char \<Rightarrow> bool) \<Rightarrow> string \<Rightarrow> string" where
  "strip_with blank s = rev (dropWhile blank (rev (dropWhile blank s)))"

definition py_strip :: "string \<Rightarrow> string" where
  "py_strip s = strip_with is_space s"

fun py_split :: "char \<Rightarrow> string \<Rightarrow> string list" where
  "py_split sep [] = [] # []"
| "py_split sep (c # cs) =
     (if c = sep then [] # py_split sep cs
      else (case py_split sep cs of
              [] \<Rightarrow> [c] # []
            | w # ws \<Rightarrow> (c # w) # ws))"

definition is_digit :: "char \<Rightarrow> bool" where
  "is_digit c = (48 \<le> (of_char c :: nat) \<and> (of_char c :: nat) \<le> 57)"

definition digit_of :: "char \<Rightarrow> nat" where
  "digit_of c = of_char c - 48"

text \<open>
  \<^verbatim>\<open>int(s)\<close> for a string in base 10: the blanks of \<open>is_int_space\<close> around it are
  dropped, one sign is allowed, then decimal digits, with single underscores between
  digits. \<open>None\<close> is \<^verbatim>\<open>ValueError\<close>.
\<close>

fun parse_digits :: "nat \<Rightarrow> string \<Rightarrow> nat option" where
  "parse_digits acc [] = Some acc"
| "parse_digits acc [c] = (if is_digit c then Some (10 * acc + digit_of c) else None)"
| "parse_digits acc (c # d # ds) =
     (if c = CHR ''_'' then
        (if is_digit d then parse_digits (10 * acc + digit_of d) ds else None)
      else if is_digit c then parse_digits (10 * acc + digit_of c) (d # ds)
      else None)"

definition py_nat :: "string \<Rightarrow> nat option" where
  "py_nat s =
     (case s of
        [] \<Rightarrow> None
      | c # cs \<Rightarrow> if is_digit c then parse_digits (digit_of c) cs else None)"

definition py_int :: "string \<Rightarrow> int option" where
  "py_int s =
     (case strip_with is_int_space s of
        [] \<Rightarrow> None
      | c # cs \<Rightarrow>
          if c = CHR ''-'' then map_option (\<lambda>n. - int n) (py_nat cs)
          else if c = CHR ''+'' then map_option int (py_nat cs)
          else map_option int (py_nat (c # cs)))"

text \<open>\<^verbatim>\<open>s < t\<close> on Python strings: lexicographic, by code point.\<close>

fun py_str_less :: "string \<Rightarrow> string \<Rightarrow> bool" where
  "py_str_less [] [] = False"
| "py_str_less [] (d # ds) = True"
| "py_str_less (c # cs) [] = False"
| "py_str_less (c # cs) (d # ds) =
     ((of_char c :: nat) < of_char d \<or> (c = d \<and> py_str_less cs ds))"

text \<open>\<^verbatim>\<open>str(n)\<close> for an integer, and the zero-padded fields of \<^verbatim>\<open>strftime\<close>.\<close>

definition digit_char :: "nat \<Rightarrow> char" where
  "digit_char n = ''0123456789'' ! (n mod 10)"

fun str_nat :: "nat \<Rightarrow> string" where
  "str_nat n = (if n < 10 then [digit_char n] else str_nat (n div 10) @ [digit_char n])"

declare str_nat.simps [simp del]

definition str_int :: "int \<Rightarrow> string" where
  "str_int i = (if i < 0 then CHR ''-'' # str_nat (nat (- i)) else str_nat (nat i))"

definition zero_pad :: "nat \<Rightarrow> nat \<Rightarrow> string" where
  "zero_pad w n = replicate (w - length (str_nat n)) CHR ''0'' @ str_nat n"

subsection \<open>Configuration\<close>

definition MIN_BUDGET :: int where
  "MIN_BUDGET = 200"

definition BUDGET_INCREMENT :: int where
  "BUDGET_INCREMENT = 25"

definition VALID_ENDINGS :: "int list" where
  "VALID_ENDINGS = [0, 25, 50, 75]"

text \<open>
  The endpoint settings of \<^verbatim>\<open>Config\<close> are empty strings in the source, to be filled in
  after discovery; the executor tests them for truth, so they are parameters here.
\<close>

record config =
  ADS_SET_BUDGET_URL :: string
  ADS_PAUSE_CAMPAIGN_URL :: string
  ADS_RESUME_CAMPAIGN_URL :: string

subsection \<open>\<^verbatim>\<open>BudgetManager\<close>\<close>

datatype validate_msg = BelowMinimum | InvalidEnding | OK

definition validate :: "int \<Rightarrow> bool \<times> validate_msg" where
  "validate amount =
     (if amount < MIN_BUDGET then (False, BelowMinimum)
      else let remainder = amount mod 100 in
        if remainder \<notin> set VALID_ENDINGS then (False, InvalidEnding)
        else (True, OK))"

definition round_up :: "real \<Rightarrow> int" where
  "round_up amount = (let base = \<lceil>amount / 25\<rceil> * 25 in max MIN_BUDGET base)"

definition calc_increment :: "real \<Rightarrow> int option \<Rightarrow> int" where
  \<comment> \<open>\<^verbatim>\<open>increment or Config.BUDGET_INCREMENT\<close>: \<^verbatim>\<open>None\<close> and \<^verbatim>\<open>0\<close> both take the default\<close>
  "calc_increment current_budget increment =
     (let inc = (case increment of
                   None \<Rightarrow> BUDGET_INCREMENT
                 | Some i \<Rightarrow> if i = 0 then BUDGET_INCREMENT else i)
      in round_up (current_budget + of_int inc))"

subsection \<open>Data: campaigns, snapshots, actions, the store, the clock\<close>

definition get_default :: "'a option \<Rightarrow> 'a \<Rightarrow> 'a" where
  \<comment> \<open>\<^verbatim>\<open>d.get(key, default)\<close> on a field that may be absent\<close>
  "get_default v d = (case v of None \<Rightarrow> d | Some x \<Rightarrow> x)"

record campaign =
  channel :: "string option"
  auto_enabled :: "bool option"
  campaign_type :: "string option"
  status :: "string option"
  spent_today :: "real option"
  daily_budget :: "real option"
  roas :: "real option"
  roas_target :: "real option"
  cart_value :: "real option"
  budget_threshold :: "real option"
  roas_min_pct :: "real option"
  eval_180 :: "bool option"
  eval_60 :: "bool option"
  eval_15 :: "bool option"
  schedule_times :: "string option"
  last_schedule_action :: "string option"
  no_increase_start :: "string option"
  no_increase_end :: "string option"
  competition_interval :: "int option"
  competition_amount :: "int option"
  last_auto_action :: "int option"

record snapshot =
  spent :: "real option"
  cart :: "int option"
  clicks :: "int option"
  orders :: "int option"
  sales :: "real option"

text \<open>
  The four action kinds the engine emits. The reason is an f-string in the source; the
  model keeps which template it is and the values that identify the rule that fired.
\<close>

datatype action_kind = SetBudget | IncreaseBudget | Pause | Resume

datatype action_reason =
    RoasLowFreeze
  | RoasLowPause
  | RoasGood
  | CartGoodIn int
  | ScheduleBudgetFull string
  | ScheduleResume string
  | CompetitionCartGood int
  | CompetitionInterval int

record action =
  campaign_id :: "string option"
  act :: action_kind
  new_budget :: "int option"
  reason :: action_reason
  act_channel :: string
  schedule_key :: "string option"

record log_entry =
  log_time :: string
  log_type :: string
  log_channel :: string
  log_message :: action_reason
  log_timestamp :: int

text \<open>
  The store holds the three paths the engine touches. Python dicts keep insertion order
  and the source iterates them, so they are association lists.
\<close>

type_synonym snapshots = "(string \<times> (string \<times> snapshot) list) list"

record store =
  campaigns :: "(string \<times> campaign) list"
  snapshot_store :: snapshots
  action_log :: "log_entry list"

record clock =
  epoch_ms :: int
  year :: nat
  month :: nat
  day :: nat
  hour :: nat
  minute :: nat

definition strftime_HM :: "clock \<Rightarrow> string" where
  "strftime_HM now = zero_pad 2 (hour now) @ '':'' @ zero_pad 2 (minute now)"

definition strftime_Ymd :: "clock \<Rightarrow> string" where
  "strftime_Ymd now =
     zero_pad 4 (year now) @ ''-'' @ zero_pad 2 (month now) @ ''-'' @ zero_pad 2 (day now)"

subsection \<open>\<^verbatim>\<open>AutoBudgetEngine._is_cart_good\<close>\<close>

text \<open>
  The loop over \<^verbatim>\<open>cam_snaps.items()\<close>: a key that \<^verbatim>\<open>int\<close> rejects is skipped by the
  \<^verbatim>\<open>except\<close>, a key inside the window is appended with its time.
\<close>

fun snaps_in_window :: "int \<Rightarrow> int \<Rightarrow> (string \<times> snapshot) list \<Rightarrow> (int \<times> snapshot) list" where
  "snaps_in_window window_start now_ms [] = []"
| "snaps_in_window window_start now_ms ((ts_str, data) # rest) =
     (case py_int ts_str of
        None \<Rightarrow> snaps_in_window window_start now_ms rest
      | Some ts \<Rightarrow>
          if ts \<ge> window_start \<and> ts \<le> now_ms
          then (ts, data) # snaps_in_window window_start now_ms rest
          else snaps_in_window window_start now_ms rest)"

definition is_cart_good :: "int \<Rightarrow> (string \<times> snapshot) list \<Rightarrow> real \<Rightarrow> int \<Rightarrow> bool" where
  "is_cart_good now_ms cam_snaps cart_value' minutes =
     (if cam_snaps = [] then False
      else
        let window_start = now_ms - minutes * 60 * 1000;
            in_window = snaps_in_window window_start now_ms cam_snaps
        in if length in_window < 2 then False
           else
             let sorted_snaps = sort_key fst in_window;
                 first = snd (hd sorted_snaps);
                 lst = snd (last sorted_snaps);
                 spent_diff = get_default (spent lst) 0 - get_default (spent first) 0;
                 cart_diff = get_default (cart lst) 0 - get_default (cart first) 0
             in if spent_diff < cart_value' then False
                else if cart_diff \<le> 0 then False
                else spent_diff / real_of_int cart_diff \<le> cart_value' * 1.5)"

subsection \<open>\<^verbatim>\<open>AutoBudgetEngine._check_schedule\<close>\<close>

definition find_campaign_id :: "(string \<times> campaign) list \<Rightarrow> string \<Rightarrow> string option" where
  \<comment> \<open>the first stored campaign with this channel; \<^verbatim>\<open>cam_id\<close> stays \<^verbatim>\<open>None\<close> when there is none\<close>
  "find_campaign_id cams ch = map_option fst (find (\<lambda>kv. channel (snd kv) = Some ch) cams)"

fun check_schedule_loop :: "store \<Rightarrow> campaign \<Rightarrow> clock \<Rightarrow> string list \<Rightarrow> action option" where
  "check_schedule_loop fb cam now [] = None"
| "check_schedule_loop fb cam now (t # ts) =
     (if strftime_HM now = t then
        (let today_key = strftime_Ymd now @ ''_'' @ t in
         if last_schedule_action cam = Some today_key then None
         else
           let ch = get_default (channel cam) '''';
               cam_id = find_campaign_id (campaigns fb) ch
           in if status cam = Some ''budget_full'' then
                Some \<lparr>campaign_id = cam_id, act = IncreaseBudget,
                      new_budget = Some (calc_increment (get_default (daily_budget cam) 200) None),
                      reason = ScheduleBudgetFull t, act_channel = ch,
                      schedule_key = Some today_key\<rparr>
              else if status cam = Some ''paused'' then
                Some \<lparr>campaign_id = cam_id, act = Resume, new_budget = None,
                      reason = ScheduleResume t, act_channel = ch,
                      schedule_key = Some today_key\<rparr>
              else check_schedule_loop fb cam now ts)
      else check_schedule_loop fb cam now ts)"

definition check_schedule :: "store \<Rightarrow> clock \<Rightarrow> campaign \<Rightarrow> action option" where
  "check_schedule fb now cam =
     (let sched_times_str = get_default (schedule_times cam) ''06:00,11:30,18:00,22:00'';
          sched_times = map py_strip (py_split CHR '','' sched_times_str)
      in check_schedule_loop fb cam now sched_times)"

subsection \<open>\<^verbatim>\<open>AutoBudgetEngine._in_time_window\<close>\<close>

definition in_time_window :: "clock \<Rightarrow> string \<Rightarrow> string \<Rightarrow> bool" where
  \<comment> \<open>any exception of the parse (wrong number of parts, not an integer) gives \<^verbatim>\<open>False\<close>\<close>
  "in_time_window now start_str end_str =
     (case map py_int (py_split CHR '':'' start_str) of
        [Some sh, Some sm] \<Rightarrow>
          (case map py_int (py_split CHR '':'' end_str) of
             [Some eh, Some em] \<Rightarrow>
               let now_min = int (hour now) * 60 + int (minute now);
                   start_min = sh * 60 + sm;
                   end_min = eh * 60 + em
               in if start_min \<le> end_min then start_min \<le> now_min \<and> now_min \<le> end_min
                  else now_min \<ge> start_min \<or> now_min \<le> end_min
           | _ \<Rightarrow> False)
      | _ \<Rightarrow> False)"

subsection \<open>\<^verbatim>\<open>AutoBudgetEngine.evaluate_normal\<close>\<close>

text \<open>
  \<^verbatim>\<open>live_data\<close> is read by \<^verbatim>\<open>_find_live_data\<close> into a local that nothing uses, so it is
  not an argument here. The store is the one \<^verbatim>\<open>_check_schedule\<close> reads through \<^verbatim>\<open>self.fb\<close>.
\<close>

definition evaluate_normal ::
  "store \<Rightarrow> clock \<Rightarrow> string \<Rightarrow> campaign \<Rightarrow> snapshots \<Rightarrow> action option" where
  "evaluate_normal fb now cam_id cam snaps =
     (let spent' = get_default (spent_today cam) 0;
          budget = get_default (daily_budget cam) 200;
          roas' = get_default (roas cam) 0;
          roas_target' = get_default (roas_target cam) 30;
          cart_value' = get_default (cart_value cam) 5;
          budget_threshold' = get_default (budget_threshold cam) 90 / 100;
          roas_min_pct' = get_default (roas_min_pct cam) 50 / 100;
          pct_used = (if budget > 0 then spent' / budget else 0);
          ch = get_default (channel cam) cam_id
      in
        if roas' > 0 \<and> roas' < roas_target' * roas_min_pct' then
          (if spent' > 200 then
             (let freeze_budget = round_up spent' in
              if budget \<noteq> real_of_int freeze_budget then
                Some \<lparr>campaign_id = Some cam_id, act = SetBudget,
                      new_budget = Some freeze_budget, reason = RoasLowFreeze,
                      act_channel = ch, schedule_key = None\<rparr>
              else None)
           else if spent' < 200 then
             (if status cam \<noteq> Some ''paused'' then
                Some \<lparr>campaign_id = Some cam_id, act = Pause, new_budget = None,
                      reason = RoasLowPause, act_channel = ch, schedule_key = None\<rparr>
              else None)
           else None)
        else
          (let rule3 =
                 (if status cam = Some ''budget_full'' \<or> status cam = Some ''paused''
                  then check_schedule fb now cam else None)
           in
             if pct_used \<ge> budget_threshold' then
               (if roas' \<ge> roas_target' then
                  Some \<lparr>campaign_id = Some cam_id, act = IncreaseBudget,
                        new_budget = Some (calc_increment budget None), reason = RoasGood,
                        act_channel = ch, schedule_key = None\<rparr>
                else
                  (let cam_snaps = get_default (map_of snaps cam_id) [];
                       windows = (if eval_180 cam \<noteq> Some False then [180] else [])
                               @ (if eval_60 cam \<noteq> Some False then [60] else [])
                               @ (if eval_15 cam \<noteq> Some False then [15] else [])
                   in case find (is_cart_good (epoch_ms now) cam_snaps cart_value') windows of
                        Some mins \<Rightarrow>
                          Some \<lparr>campaign_id = Some cam_id, act = IncreaseBudget,
                                new_budget = Some (calc_increment budget None),
                                reason = CartGoodIn mins, act_channel = ch,
                                schedule_key = None\<rparr>
                      | None \<Rightarrow> rule3))
             else rule3))"

subsection \<open>\<^verbatim>\<open>AutoBudgetEngine.evaluate_competition\<close>\<close>

definition evaluate_competition ::
  "clock \<Rightarrow> string \<Rightarrow> campaign \<Rightarrow> snapshots \<Rightarrow> action option" where
  "evaluate_competition now cam_id cam snaps =
     (let spent' = get_default (spent_today cam) 0;
          budget = get_default (daily_budget cam) 200;
          pct_used = (if budget > 0 then spent' / budget else 0);
          ch = get_default (channel cam) cam_id;
          no_inc_start = get_default (no_increase_start cam) ''03:00'';
          no_inc_end = get_default (no_increase_end cam) ''05:00''
      in
        if in_time_window now no_inc_start no_inc_end then None
        else if pct_used \<ge> 0.99 \<or> status cam = Some ''budget_full'' then
          (let interval = get_default (competition_interval cam) 30;
               last_action = get_default (last_auto_action cam) 0;
               elapsed = (if last_action \<noteq> 0
                          then (real_of_int (epoch_ms now) - real_of_int last_action) / 60000
                          else 999)
           in
             if elapsed \<ge> real_of_int interval then
               (let cam_snaps = get_default (map_of snaps cam_id) [];
                    cart_value' = get_default (cart_value cam) 5;
                    amount = get_default (competition_amount cam) 25
                in
                  if is_cart_good (epoch_ms now) cam_snaps cart_value' 15 then
                    Some \<lparr>campaign_id = Some cam_id, act = IncreaseBudget,
                          new_budget = Some (calc_increment budget (Some amount)),
                          reason = CompetitionCartGood amount, act_channel = ch,
                          schedule_key = None\<rparr>
                  else
                    Some \<lparr>campaign_id = Some cam_id, act = IncreaseBudget,
                          new_budget = Some (calc_increment budget (Some 25)),
                          reason = CompetitionInterval interval, act_channel = ch,
                          schedule_key = None\<rparr>)
             else None)
        else None)"

subsection \<open>\<^verbatim>\<open>AutoBudgetEngine.evaluate_all\<close>\<close>

fun evaluate_all :: "store \<Rightarrow> clock \<Rightarrow> (string \<times> campaign) list \<Rightarrow> snapshots \<Rightarrow> action list" where
  "evaluate_all fb now [] snaps = []"
| "evaluate_all fb now ((cam_id, cam) # rest) snaps =
     (if auto_enabled cam = Some False then evaluate_all fb now rest snaps
      else
        (case (if campaign_type cam = Some ''competition''
               then evaluate_competition now cam_id cam snaps
               else evaluate_normal fb now cam_id cam snaps) of
           Some action \<Rightarrow> action # evaluate_all fb now rest snaps
         | None \<Rightarrow> evaluate_all fb now rest snaps))"

subsection \<open>\<^verbatim>\<open>AutoBudgetEngine.execute_action\<close>\<close>

text \<open>
  \<^verbatim>\<open>fb_updates\<close> is the dict the executor builds and hands to \<^verbatim>\<open>fb.update\<close>, which
  merges its keys into the campaign's node (and creates the node when there is none).
\<close>

record fb_updates =
  upd_last_auto_action :: int
  upd_last_schedule_action :: "string option"
  upd_daily_budget :: "int option"
  upd_status :: "string option"

definition empty_campaign :: campaign where
  "empty_campaign =
     \<lparr>channel = None, auto_enabled = None, campaign_type = None, status = None,
      spent_today = None, daily_budget = None, roas = None, roas_target = None,
      cart_value = None, budget_threshold = None, roas_min_pct = None,
      eval_180 = None, eval_60 = None, eval_15 = None, schedule_times = None,
      last_schedule_action = None, no_increase_start = None, no_increase_end = None,
      competition_interval = None, competition_amount = None, last_auto_action = None\<rparr>"

definition apply_updates :: "fb_updates \<Rightarrow> campaign \<Rightarrow> campaign" where
  "apply_updates u cam =
     cam\<lparr>last_auto_action := Some (upd_last_auto_action u),
         last_schedule_action :=
           (case upd_last_schedule_action u of
              None \<Rightarrow> last_schedule_action cam | Some k \<Rightarrow> Some k),
         daily_budget :=
           (case upd_daily_budget u of
              None \<Rightarrow> daily_budget cam | Some b \<Rightarrow> Some (real_of_int b)),
         status := (case upd_status u of None \<Rightarrow> status cam | Some s \<Rightarrow> Some s)\<rparr>"

fun update_node :: "string \<Rightarrow> fb_updates \<Rightarrow> (string \<times> campaign) list \<Rightarrow> (string \<times> campaign) list" where
  "update_node cam_id u [] = [(cam_id, apply_updates u empty_campaign)]"
| "update_node cam_id u ((k, v) # rest) =
     (if k = cam_id then (k, apply_updates u v) # rest
      else (k, v) # update_node cam_id u rest)"

definition fb_update_campaign :: "string \<Rightarrow> fb_updates \<Rightarrow> store \<Rightarrow> store" where
  "fb_update_campaign cam_id u fb = fb\<lparr>campaigns := update_node cam_id u (campaigns fb)\<rparr>"

definition fb_push_log :: "log_entry \<Rightarrow> store \<Rightarrow> store" where
  "fb_push_log e fb = fb\<lparr>action_log := action_log fb @ [e]\<rparr>"

text \<open>
  What the executor does to the outside, in the order it does it: a call of the ads API
  (with the campaign id and whether the client reported success), the update of the
  campaign's node, the push to the action log.
\<close>

datatype event =
    ApiSetBudget "string option" int bool
  | ApiPause "string option" bool
  | ApiResume "string option" bool
  | StoreUpdate string fb_updates
  | LogPush log_entry

definition log_type_of :: "action_kind \<Rightarrow> string" where
  \<comment> \<open>\<^verbatim>\<open>act.replace('_budget', '').replace('increase', 'increase')\<close>\<close>
  "log_type_of k =
     (case k of SetBudget \<Rightarrow> ''set'' | IncreaseBudget \<Rightarrow> ''increase''
              | Pause \<Rightarrow> ''pause'' | Resume \<Rightarrow> ''resume'')"

definition truthy :: "string \<Rightarrow> bool" where
  "truthy s = (s \<noteq> [])"

text \<open>
  \<^verbatim>\<open>api_ok\<close> is what the client method returns: \<^verbatim>\<open>False\<close> for every failure of the remote
  call, which the client catches itself. The result is the returned flag, the store
  afterwards and the events in order.
\<close>

definition execute_action ::
  "config \<Rightarrow> bool \<Rightarrow> clock \<Rightarrow> action \<Rightarrow> string \<Rightarrow> store \<Rightarrow> bool \<times> store \<times> event list" where
  "execute_action cfg api_ok now action cookie_str fb =
     (let cam_id = campaign_id action;
          fb_updates0 = \<lparr>upd_last_auto_action = epoch_ms now,
                         upd_last_schedule_action =
                           (case schedule_key action of
                              None \<Rightarrow> None
                            | Some k \<Rightarrow> if truthy k then Some k else None),
                         upd_daily_budget = None, upd_status = None\<rparr>;
          finish = (\<lambda>fb_updates api_events.
             let store_events =
                   (case cam_id of
                      None \<Rightarrow> []
                    | Some c \<Rightarrow> if truthy c then [StoreUpdate c fb_updates] else []);
                 fb1 = (case cam_id of
                          None \<Rightarrow> fb
                        | Some c \<Rightarrow> if truthy c then fb_update_campaign c fb_updates fb else fb);
                 entry = \<lparr>log_time = strftime_HM now, log_type = log_type_of (act action),
                          log_channel = act_channel action, log_message = reason action,
                          log_timestamp = epoch_ms now\<rparr>
             in (True, fb_push_log entry fb1, api_events @ store_events @ [LogPush entry]))
      in
        if act action = IncreaseBudget \<or> act action = SetBudget then
          (let new_budget' = get_default (new_budget action) 200;
               (valid, msg) = validate new_budget'
           in if \<not> valid then (False, fb, [])
              else
                finish (fb_updates0\<lparr>upd_daily_budget := Some new_budget',
                                     upd_status := Some ''active''\<rparr>)
                  (if truthy (ADS_SET_BUDGET_URL cfg) \<and> truthy cookie_str
                   then [ApiSetBudget cam_id new_budget' api_ok] else []))
        else if act action = Pause then
          finish (fb_updates0\<lparr>upd_status := Some ''paused''\<rparr>)
            (if truthy (ADS_PAUSE_CAMPAIGN_URL cfg) \<and> truthy cookie_str
             then [ApiPause cam_id api_ok] else [])
        else
          finish (fb_updates0\<lparr>upd_status := Some ''active''\<rparr>)
            (if truthy (ADS_RESUME_CAMPAIGN_URL cfg) \<and> truthy cookie_str
             then [ApiResume cam_id api_ok] else []))"

subsection \<open>\<^verbatim>\<open>SnapshotManager.cleanup_old_snapshots\<close>\<close>

definition fb_read_snapshots :: "store \<Rightarrow> string \<Rightarrow> (string \<times> snapshot) list" where
  \<comment> \<open>\<^verbatim>\<open>self.fb.read(path) or {}\<close>\<close>
  "fb_read_snapshots fb cam_id = get_default (map_of (snapshot_store fb) cam_id) []"

definition fb_delete_snapshot :: "string \<Rightarrow> string \<Rightarrow> store \<Rightarrow> store" where
  "fb_delete_snapshot cam_id ts fb =
     fb\<lparr>snapshot_store :=
          map (\<lambda>(k, snaps). if k = cam_id then (k, filter (\<lambda>e. fst e \<noteq> ts) snaps) else (k, snaps))
            (snapshot_store fb)\<rparr>"

fun cleanup_keys :: "string \<Rightarrow> string \<Rightarrow> string list \<Rightarrow> store \<Rightarrow> store" where
  "cleanup_keys cutoff cam_id [] fb = fb"
| "cleanup_keys cutoff cam_id (ts # rest) fb =
     cleanup_keys cutoff cam_id rest
       (if py_str_less ts cutoff then fb_delete_snapshot cam_id ts fb else fb)"

fun cleanup_campaigns :: "string \<Rightarrow> string list \<Rightarrow> store \<Rightarrow> store" where
  "cleanup_campaigns cutoff [] fb = fb"
| "cleanup_campaigns cutoff (cam_id # rest) fb =
     (let snaps = fb_read_snapshots fb cam_id
      in cleanup_campaigns cutoff rest (cleanup_keys cutoff cam_id (map fst snaps) fb))"

definition cleanup_old_snapshots :: "clock \<Rightarrow> (string \<times> campaign) list \<Rightarrow> store \<Rightarrow> store" where
  "cleanup_old_snapshots now cams fb =
     (let cutoff = str_int (epoch_ms now - 4 * 3600 * 1000)
      in cleanup_campaigns cutoff (map fst cams) fb)"

subsection \<open>The window evaluator as the specification words it\<close>

text \<open>
  The window of a campaign: the snapshots whose key is a timestamp inside
  \<open>[now - minutes * 60000, now]\<close>, in ascending order of time; and the verdict on a
  window, from its first and last point.
\<close>

definition spec_window :: "int \<Rightarrow> (string \<times> snapshot) list \<Rightarrow> int \<Rightarrow> (int \<times> snapshot) list" where
  "spec_window now_ms cam_snaps minutes =
     sort_key fst
       (filter (\<lambda>e. now_ms - minutes * 60000 \<le> fst e \<and> fst e \<le> now_ms)
          (List.map_filter (\<lambda>kd. map_option (\<lambda>ts. (ts, snd kd)) (py_int (fst kd))) cam_snaps))"

definition spec_verdict :: "(int \<times> snapshot) list \<Rightarrow> real \<Rightarrow> bool" where
  "spec_verdict w cart_value' =
     (if length w < 2 then False
      else
        let spent_diff = get_default (spent (snd (last w))) 0 - get_default (spent (snd (hd w))) 0;
            cart_diff = get_default (cart (snd (last w))) 0 - get_default (cart (snd (hd w))) 0
        in if spent_diff < cart_value' \<or> cart_diff \<le> 0 then False
           else spent_diff / real_of_int cart_diff \<le> cart_value' * 3 / 2)"

subsection \<open>The effects of an applied action, named\<close>

text \<open>
  What an applied action writes to its campaign node, which API call it makes and what
  it logs, as functions of the action; and the order property of an event trace that the
  specification asks for: the store is written, and no API call comes before that write.
\<close>

definition action_updates :: "clock \<Rightarrow> action \<Rightarrow> fb_updates" where
  "action_updates now a =
     \<lparr>upd_last_auto_action = epoch_ms now,
      upd_last_schedule_action =
        (case schedule_key a of None \<Rightarrow> None | Some k \<Rightarrow> if truthy k then Some k else None),
      upd_daily_budget =
        (if act a = IncreaseBudget \<or> act a = SetBudget
         then Some (get_default (new_budget a) 200) else None),
      upd_status = Some (if act a = Pause then ''paused'' else ''active'')\<rparr>"

definition action_api_events :: "config \<Rightarrow> bool \<Rightarrow> action \<Rightarrow> string \<Rightarrow> event list" where
  "action_api_events cfg api_ok a cookie_str =
     (if act a = IncreaseBudget \<or> act a = SetBudget then
        (if truthy (ADS_SET_BUDGET_URL cfg) \<and> truthy cookie_str
         then [ApiSetBudget (campaign_id a) (get_default (new_budget a) 200) api_ok] else [])
      else if act a = Pause then
        (if truthy (ADS_PAUSE_CAMPAIGN_URL cfg) \<and> truthy cookie_str
         then [ApiPause (campaign_id a) api_ok] else [])
      else
        (if truthy (ADS_RESUME_CAMPAIGN_URL cfg) \<and> truthy cookie_str
         then [ApiResume (campaign_id a) api_ok] else []))"

definition action_log_entry :: "clock \<Rightarrow> action \<Rightarrow> log_entry" where
  "action_log_entry now a =
     \<lparr>log_time = strftime_HM now, log_type = log_type_of (act a),
      log_channel = act_channel a, log_message = reason a, log_timestamp = epoch_ms now\<rparr>"

fun is_api_event :: "event \<Rightarrow> bool" where
  "is_api_event (ApiSetBudget c b ok) = True"
| "is_api_event (ApiPause c ok) = True"
| "is_api_event (ApiResume c ok) = True"
| "is_api_event (StoreUpdate c u) = False"
| "is_api_event (LogPush e) = False"

fun is_store_update :: "event \<Rightarrow> bool" where
  "is_store_update (StoreUpdate c u) = True"
| "is_store_update (ApiSetBudget c b ok) = False"
| "is_store_update (ApiPause c ok) = False"
| "is_store_update (ApiResume c ok) = False"
| "is_store_update (LogPush e) = False"

definition store_write_first :: "event list \<Rightarrow> bool" where
  "store_write_first tr =
     (list_ex is_store_update tr
      \<and> list_all (\<lambda>e. \<not> is_api_event e) (takeWhile (\<lambda>e. \<not> is_store_update e) tr))"

subsection \<open>Concrete inputs\<close>

definition example_clock :: clock where
  "example_clock =
     \<lparr>epoch_ms = 1700000000000, year = 2023, month = 11, day = 14, hour = 6, minute = 0\<rparr>"

definition example_store :: store where
  "example_store = \<lparr>campaigns = [], snapshot_store = [], action_log = []\<rparr>"

definition example_config :: config where
  "example_config =
     \<lparr>ADS_SET_BUDGET_URL = ''/ads/setBudget'', ADS_PAUSE_CAMPAIGN_URL = ''/ads/pause'',
      ADS_RESUME_CAMPAIGN_URL = ''/ads/resume''\<rparr>"

definition budget_full_campaign :: campaign where
  "budget_full_campaign = empty_campaign\<lparr>channel := Some ''shop'', status := Some ''budget_full''\<rparr>"

definition low_roas_campaign :: "real \<Rightarrow> campaign" where
  "low_roas_campaign s =
     empty_campaign\<lparr>channel := Some ''shop'', status := Some ''active'', spent_today := Some s,
                    roas := Some 10, roas_target := Some 30, roas_min_pct := Some 50\<rparr>"

definition example_snaps :: snapshots where
  "example_snaps =
     [(''c1'',
       [(''1699998200000'', \<lparr>spent = Some 10, cart = Some 2, clicks = None, orders = None, sales = None\<rparr>),
        (''1699999400000'', \<lparr>spent = Some 20, cart = Some 4, clicks = None, orders = None, sales = None\<rparr>),
        (''1699999700000'', \<lparr>spent = Some 30, cart = Some 6, clicks = None, orders = None, sales = None\<rparr>)])]"

definition near_limit_campaign :: campaign where
  "near_limit_campaign =
     empty_campaign\<lparr>channel := Some ''shop'', status := Some ''active'', spent_today := Some 190,
                    daily_budget := Some 200, roas := Some 20, eval_180 := Some False\<rparr>"

definition competition_campaign :: campaign where
  "competition_campaign =
     empty_campaign\<lparr>channel := Some ''shop'', campaign_type := Some ''competition'',
                    status := Some ''active'', spent_today := Some 199, daily_budget := Some 200,
                    competition_interval := Some 30, competition_amount := Some 50,
                    last_auto_action := Some 1699998000000\<rparr>"

definition spec_example_window :: "(string \<times> snapshot) list" where
  "spec_example_window =
     [(''0'', \<lparr>spent = Some 10, cart = Some 2, clicks = None, orders = None, sales = None\<rparr>),
      (''600000'', \<lparr>spent = Some 20, cart = Some 4, clicks = None, orders = None, sales = None\<rparr>)]"

definition paused_campaign :: campaign where
  "paused_campaign = empty_campaign\<lparr>channel := Some ''shop'', status := Some ''paused''\<rparr>"

definition schedule_store :: store where
  "schedule_store = \<lparr>campaigns = [(''c1'', paused_campaign)], snapshot_store = [], action_log = []\<rparr>"

definition pause_action :: action where
  "pause_action =
     \<lparr>campaign_id = Some ''c1'', act = Pause, new_budget = None, reason = RoasLowPause,
      act_channel = ''shop'', schedule_key = None\<rparr>"

definition resume_action :: action where
  "resume_action =
     \<lparr>campaign_id = Some ''c1'', act = Resume, new_budget = None,
      reason = ScheduleResume ''06:00'', act_channel = ''shop'',
      schedule_key = Some ''2023-11-14_06:00''\<rparr>"

definition example_snapshot :: "real \<Rightarrow> int \<Rightarrow> snapshot" where
  "example_snapshot s c = \<lparr>spent = Some s, cart = Some c, clicks = None, orders = None, sales = None\<rparr>"

definition stale_store :: store where
  "stale_store =
     \<lparr>campaigns = [(''c1'', paused_campaign)],
      snapshot_store =
        [(''c1'', [(''999999999999'', example_snapshot 5 1),
                  (''1699980000000'', example_snapshot 10 2),
                  (''1699999700000'', example_snapshot 30 6)])],
      action_log = []\<rparr>"

definition never_acted_campaign :: campaign where
  "never_acted_campaign =
     empty_campaign\<lparr>channel := Some ''shop'', campaign_type := Some ''competition'',
                    status := Some ''budget_full'', spent_today := Some 200,
                    daily_budget := Some 200, competition_interval := Some 1000\<rparr>"

definition shared_channel_store :: store where
  "shared_channel_store =
     \<lparr>campaigns = [(''c1'', paused_campaign), (''c2'', paused_campaign)],
      snapshot_store = [], action_log = []\<rparr>"

definition written_store :: store where
  "written_store =
     \<lparr>campaigns = [(''c1'', paused_campaign)],
      snapshot_store =
        [(''c1'', [(''1699980000000'', example_snapshot 10 2),
                  (''1699985600000'', example_snapshot 20 4),
                  (''1699999700000'', example_snapshot 30 6)])],
      action_log = []\<rparr>"

section \<open>Verified properties\<close>

subsection \<open>Budget arithmetic\<close>

lemma round_up_mult: "\<exists>m. round_up x = 25 * m \<and> 8 \<le> m"
proof -
  have "max (200::int) (\<lceil>x / 25\<rceil> * 25) = 25 * max 8 \<lceil>x / 25\<rceil>"
    by linarith
  then show ?thesis unfolding round_up_def Let_def MIN_BUDGET_def by (metis max.cobounded1)
qed

lemma validate_iff: "fst (validate n) \<longleftrightarrow> 200 \<le> n \<and> n mod 100 \<in> {0, 25, 50, 75}"
  by (auto simp: validate_def MIN_BUDGET_def VALID_ENDINGS_def Let_def)

lemma mult25_mod: "(25 * (m::int)) mod 100 \<in> {0, 25, 50, 75}"
proof -
  have e: "(25 * m) mod 100 = 25 * (m mod 4)"
    using mult_mod_right[of 25 m 4] by simp
  have "0 \<le> m mod 4" "m mod 4 < 4" by simp_all
  then have "m mod 4 = 0 \<or> m mod 4 = 1 \<or> m mod 4 = 2 \<or> m mod 4 = 3" by linarith
  then show ?thesis unfolding e by auto
qed

lemma round_up_valid: "fst (validate (round_up x))"
proof -
  obtain m where m: "round_up x = 25 * m" "8 \<le> m" using round_up_mult by blast
  have "200 \<le> 25 * m" using m(2) by linarith
  then show ?thesis unfolding validate_iff m(1) using mult25_mod[of m] by blast
qed

lemma calc_increment_valid: "fst (validate (calc_increment b inc))"
  unfolding calc_increment_def Let_def by (rule round_up_valid)

lemma validate_True: "fst (validate n) \<Longrightarrow> validate n = (True, OK)"
  by (auto simp: validate_def Let_def split: if_splits)

lemma validate_200: "fst (validate 200)"
  by (simp add: validate_iff)

subsection \<open>The executor rejects an invalid budget before it touches the store\<close>

text \<open>
  C4. An \<^verbatim>\<open>increase_budget\<close> or \<^verbatim>\<open>set_budget\<close> action whose \<^verbatim>\<open>new_budget\<close> is below
  \<^verbatim>\<open>MIN_BUDGET\<close> or does not end in 0, 25, 50 or 75 makes \<^verbatim>\<open>execute_action\<close> return
  \<^verbatim>\<open>False\<close> with the store exactly as it was (campaign nodes, \<^verbatim>\<open>last_schedule_action\<close>
  and the action log included) and with no event at all: no API call, no update, no push.
\<close>

theorem invalid_budget_rejected:
  assumes "act action = IncreaseBudget \<or> act action = SetBudget"
    and "new_budget action = Some nb"
    and "nb < MIN_BUDGET \<or> nb mod 100 \<notin> {0, 25, 50, 75}"
  shows "execute_action cfg api_ok now action cookie_str fb = (False, fb, [])"
proof -
  have "\<not> fst (validate nb)" using assms(3) by (auto simp: validate_iff MIN_BUDGET_def)
  then obtain msg where v: "validate nb = (False, msg)" by (cases "validate nb") auto
  show ?thesis using assms(1) unfolding execute_action_def Let_def
    by (simp add: assms(2) get_default_def v)
qed

theorem invalid_budget_rejected_witness:
  "execute_action example_config True example_clock
     \<lparr>campaign_id = Some ''c1'', act = SetBudget, new_budget = Some 210, reason = RoasLowFreeze,
      act_channel = ''shop'', schedule_key = Some ''2023-11-14_06:00''\<rparr> ''SPC_EC=abc'' example_store
   = (False, example_store, [])"
  by (rule invalid_budget_rejected[where nb = 210]) (simp_all add: MIN_BUDGET_def)

subsection \<open>Every budget the engine emits is a valid budget\<close>

lemma check_schedule_loop_budget:
  "check_schedule_loop fb cam now ts = Some a \<Longrightarrow> new_budget a = Some nb \<Longrightarrow> fst (validate nb)"
proof (induction ts)
  case Nil
  then show ?case by simp
next
  case (Cons t ts)
  show ?case
  proof (cases "check_schedule_loop fb cam now (t # ts) = check_schedule_loop fb cam now ts")
    case True
    with Cons show ?thesis by simp
  next
    case False
    then consider
      (full) "a = \<lparr>campaign_id = find_campaign_id (campaigns fb) (get_default (channel cam) ''''),
                   act = IncreaseBudget,
                   new_budget = Some (calc_increment (get_default (daily_budget cam) 200) None),
                   reason = ScheduleBudgetFull t, act_channel = get_default (channel cam) '''',
                   schedule_key = Some (strftime_Ymd now @ ''_'' @ t)\<rparr>"
    | (resume) "new_budget a = None"
      using Cons.prems(1) by (auto simp: Let_def split: if_splits)
    then show ?thesis
    proof cases
      case full
      with Cons.prems(2) have "nb = calc_increment (get_default (daily_budget cam) 200) None"
        by simp
      then show ?thesis by (simp only: calc_increment_valid)
    next
      case resume
      with Cons.prems(2) show ?thesis by simp
    qed
  qed
qed

lemma check_schedule_budget:
  "check_schedule fb now cam = Some a \<Longrightarrow> new_budget a = Some nb \<Longrightarrow> fst (validate nb)"
  unfolding check_schedule_def Let_def by (rule check_schedule_loop_budget)

lemma evaluate_competition_budget:
  assumes "evaluate_competition now cam_id cam snaps = Some a"
  shows "\<forall>nb. new_budget a = Some nb \<longrightarrow> fst (validate nb)"
  using assms unfolding evaluate_competition_def Let_def
  by (auto split: if_splits simp: calc_increment_valid)

lemma evaluate_normal_budget:
  assumes "evaluate_normal fb now cam_id cam snaps = Some a"
  shows "\<forall>nb. new_budget a = Some nb \<longrightarrow> fst (validate nb)"
proof (cases "check_schedule fb now cam = Some a")
  case True
  then show ?thesis using check_schedule_budget by blast
next
  case False
  with assms show ?thesis unfolding evaluate_normal_def Let_def
    by (auto split: if_splits option.splits simp: calc_increment_valid round_up_valid)
qed

lemma evaluate_all_budget:
  "a \<in> set (evaluate_all fb now cams snaps) \<Longrightarrow>
   \<forall>nb. new_budget a = Some nb \<longrightarrow> fst (validate nb)"
proof (induction cams)
  case Nil
  then show ?case by simp
next
  case (Cons c cams)
  obtain cam_id cam where c: "c = (cam_id, cam)" by (cases c)
  show ?case
  proof (cases "a \<in> set (evaluate_all fb now cams snaps)")
    case True
    then show ?thesis by (rule Cons.IH)
  next
    case False
    with Cons.prems have
      "evaluate_competition now cam_id cam snaps = Some a \<or>
       evaluate_normal fb now cam_id cam snaps = Some a"
      unfolding c by (auto split: if_splits option.splits)
    then show ?thesis using evaluate_competition_budget evaluate_normal_budget by blast
  qed
qed

lemma execute_action_applied:
  assumes "\<forall>nb. new_budget a = Some nb \<longrightarrow> fst (validate nb)"
  shows "fst (execute_action cfg api_ok now a cookie_str fb)"
proof -
  have "fst (validate (get_default (new_budget a) 200))"
    using assms validate_200 by (cases "new_budget a") (simp_all add: get_default_def)
  then have v: "validate (get_default (new_budget a) 200) = (True, OK)" by (rule validate_True)
  show ?thesis unfolding execute_action_def Let_def v by simp
qed

text \<open>
  C10. Whatever the campaign holds (no sign condition is needed), an action that
  \<^verbatim>\<open>evaluate_normal\<close>, \<^verbatim>\<open>evaluate_competition\<close> or \<^verbatim>\<open>evaluate_all\<close> emits carries, if it
  carries a \<^verbatim>\<open>new_budget\<close> at all, one that is at least 200 and ends in 0, 25, 50 or 75,
  so \<^verbatim>\<open>validate\<close> accepts it and \<^verbatim>\<open>execute_action\<close> applies the action.
\<close>

theorem engine_budgets_valid:
  assumes "evaluate_normal fb now cam_id cam snaps = Some a
         \<or> evaluate_competition now cam_id cam snaps = Some a
         \<or> a \<in> set (evaluate_all fb now cams snaps)"
  shows "(\<forall>nb. new_budget a = Some nb \<longrightarrow>
            MIN_BUDGET \<le> nb \<and> nb mod 100 \<in> {0, 25, 50, 75} \<and> fst (validate nb))
       \<and> fst (execute_action cfg api_ok now' a cookie_str st)"
proof -
  have v: "\<forall>nb. new_budget a = Some nb \<longrightarrow> fst (validate nb)"
    using assms evaluate_normal_budget evaluate_competition_budget evaluate_all_budget by blast
  then have "fst (execute_action cfg api_ok now' a cookie_str st)"
    by (rule execute_action_applied)
  with v show ?thesis by (auto simp: validate_iff MIN_BUDGET_def)
qed

theorem engine_budgets_valid_witness:
  "evaluate_competition example_clock ''c1'' budget_full_campaign [] =
     Some \<lparr>campaign_id = Some ''c1'', act = IncreaseBudget, new_budget = Some 225,
           reason = CompetitionInterval 30, act_channel = ''shop'', schedule_key = None\<rparr>
   \<and> MIN_BUDGET \<le> 225 \<and> (225::int) mod 100 \<in> {0, 25, 50, 75} \<and> fst (validate 225)
   \<and> fst (execute_action example_config False example_clock
        \<lparr>campaign_id = Some ''c1'', act = IncreaseBudget, new_budget = Some 225,
         reason = CompetitionInterval 30, act_channel = ''shop'', schedule_key = None\<rparr>
        ''SPC_EC=abc'' example_store)"
proof -
  have w: "in_time_window example_clock ''03:00'' ''05:00'' = False"
    by code_simp
  have i: "calc_increment 200 (Some 25) = 225"
    by (simp add: calc_increment_def round_up_def MIN_BUDGET_def)
  have h: "evaluate_competition example_clock ''c1'' budget_full_campaign [] =
     Some \<lparr>campaign_id = Some ''c1'', act = IncreaseBudget, new_budget = Some 225,
           reason = CompetitionInterval 30, act_channel = ''shop'', schedule_key = None\<rparr>"
    by (simp add: evaluate_competition_def Let_def w i budget_full_campaign_def
        empty_campaign_def get_default_def is_cart_good_def)
  show ?thesis
    using engine_budgets_valid[OF disjI2[OF disjI1[OF h]], of example_config False example_clock
        "''SPC_EC=abc''" example_store] h
    by simp
qed

subsection \<open>Normal policy, rule 1: ROAS below the floor\<close>

text \<open>
  C1, as the code has it. For a campaign with \<open>0 < roas < roas_target * roas_min_pct\<close>
  (the last being the stored percentage over 100): when \<open>spent_today > 200\<close> the engine
  emits \<^verbatim>\<open>set_budget\<close> to \<open>round_up spent_today\<close>, and only when that differs from the
  current \<^verbatim>\<open>daily_budget\<close>; when \<open>spent_today < 200\<close> and the status is not \<^verbatim>\<open>paused\<close>
  it emits \<^verbatim>\<open>pause\<close>; in every other case, \<open>spent_today = 200\<close> included, it emits
  nothing. So the result is never an increase or a scheduled action: rules 2 and 3 do
  not fire.
\<close>

theorem roas_too_low_rule:
  fixes cam :: campaign and cam_id :: string and fb :: store and now :: clock and snaps :: snapshots
  defines "spent' \<equiv> get_default (spent_today cam) 0"
    and "budget \<equiv> get_default (daily_budget cam) 200"
    and "roas' \<equiv> get_default (roas cam) 0"
    and "roas_floor \<equiv> get_default (roas_target cam) 30 * (get_default (roas_min_pct cam) 50 / 100)"
    and "ch \<equiv> get_default (channel cam) cam_id"
    and "result \<equiv> evaluate_normal fb now cam_id cam snaps"
  assumes "0 < roas'" and "roas' < roas_floor"
  shows "result =
           (if spent' > 200 then
              (if budget \<noteq> real_of_int (round_up spent') then
                 Some \<lparr>campaign_id = Some cam_id, act = SetBudget,
                       new_budget = Some (round_up spent'), reason = RoasLowFreeze,
                       act_channel = ch, schedule_key = None\<rparr>
               else None)
            else if spent' < 200 \<and> status cam \<noteq> Some ''paused'' then
              Some \<lparr>campaign_id = Some cam_id, act = Pause, new_budget = None,
                    reason = RoasLowPause, act_channel = ch, schedule_key = None\<rparr>
            else None)
       \<and> map_option act result \<in> {None, Some SetBudget, Some Pause}
       \<and> map_option schedule_key result \<in> {None, Some None}"
  using assms(7,8) unfolding assms(1-6) evaluate_normal_def Let_def by simp


theorem roas_too_low_rule_witness:
  "evaluate_normal example_store example_clock ''c1'' (low_roas_campaign 500) [] =
     Some \<lparr>campaign_id = Some ''c1'', act = SetBudget, new_budget = Some 500,
           reason = RoasLowFreeze, act_channel = ''shop'', schedule_key = None\<rparr>
   \<and> evaluate_normal example_store example_clock ''c1'' (low_roas_campaign 150) [] =
     Some \<lparr>campaign_id = Some ''c1'', act = Pause, new_budget = None,
           reason = RoasLowPause, act_channel = ''shop'', schedule_key = None\<rparr>"
  using roas_too_low_rule[where cam = "low_roas_campaign 500" and cam_id = "''c1''"
          and fb = example_store and now = example_clock and snaps = "[]"]
        roas_too_low_rule[where cam = "low_roas_campaign 150" and cam_id = "''c1''"
          and fb = example_store and now = example_clock and snaps = "[]"]
  by (simp add: low_roas_campaign_def empty_campaign_def get_default_def round_up_def
      MIN_BUDGET_def)

theorem roas_too_low_at_200_counterexample:
  "0 < get_default (roas (low_roas_campaign 200)) 0
   \<and> get_default (roas (low_roas_campaign 200)) 0
       < get_default (roas_target (low_roas_campaign 200)) 30
         * (get_default (roas_min_pct (low_roas_campaign 200)) 50 / 100)
   \<and> get_default (spent_today (low_roas_campaign 200)) 0 \<le> 200
   \<and> status (low_roas_campaign 200) \<noteq> Some ''paused''
   \<and> evaluate_normal example_store example_clock ''c1'' (low_roas_campaign 200) [] = None"
  by (simp add: evaluate_normal_def Let_def low_roas_campaign_def empty_campaign_def
      get_default_def)

subsection \<open>Normal policy: the worked example\<close>

text \<open>
  C9. With \<open>roas = 10\<close>, \<open>roas_target = 30\<close> and \<open>roas_min_pct = 0.5\<close> as the engine
  computes it (the stored percentage 50, which is also the default, over 100), the floor
  is 15. A campaign with \<open>spent_today = 500\<close>, whose budget is not 500 already, gets
  \<^verbatim>\<open>set_budget\<close> with \<open>new_budget = round_up 500 = 500\<close>; a campaign with
  \<open>spent_today = 150\<close> and status \<^verbatim>\<open>active\<close> gets \<^verbatim>\<open>pause\<close>.
\<close>

theorem normal_policy_worked_example:
  assumes "get_default (roas cam1) 0 = 10" and "get_default (roas_target cam1) 30 = 30"
    and "get_default (roas_min_pct cam1) 50 / 100 = 0.5"
    and "get_default (spent_today cam1) 0 = 500"
    and "get_default (daily_budget cam1) 200 \<noteq> 500"
    and "get_default (roas cam2) 0 = 10" and "get_default (roas_target cam2) 30 = 30"
    and "get_default (roas_min_pct cam2) 50 / 100 = 0.5"
    and "get_default (spent_today cam2) 0 = 150"
    and "status cam2 = Some ''active''"
  shows "get_default (roas_target cam1) 30 * (get_default (roas_min_pct cam1) 50 / 100) = 15
       \<and> round_up 500 = 500
       \<and> evaluate_normal fb1 now1 id1 cam1 snaps1 =
           Some \<lparr>campaign_id = Some id1, act = SetBudget, new_budget = Some 500,
                 reason = RoasLowFreeze, act_channel = get_default (channel cam1) id1,
                 schedule_key = None\<rparr>
       \<and> evaluate_normal fb2 now2 id2 cam2 snaps2 =
           Some \<lparr>campaign_id = Some id2, act = Pause, new_budget = None,
                 reason = RoasLowPause, act_channel = get_default (channel cam2) id2,
                 schedule_key = None\<rparr>"
proof -
  have r: "round_up 500 = 500" by (simp add: round_up_def MIN_BUDGET_def)
  have f: "get_default (roas_target cam1) 30 * (get_default (roas_min_pct cam1) 50 / 100) = 15"
    unfolding assms(2,3) by simp
  have e1: "evaluate_normal fb1 now1 id1 cam1 snaps1 =
           Some \<lparr>campaign_id = Some id1, act = SetBudget, new_budget = Some 500,
                 reason = RoasLowFreeze, act_channel = get_default (channel cam1) id1,
                 schedule_key = None\<rparr>"
    using assms(5) unfolding evaluate_normal_def Let_def assms(1-4) by (simp add: r)
  have e2: "evaluate_normal fb2 now2 id2 cam2 snaps2 =
           Some \<lparr>campaign_id = Some id2, act = Pause, new_budget = None,
                 reason = RoasLowPause, act_channel = get_default (channel cam2) id2,
                 schedule_key = None\<rparr>"
    unfolding evaluate_normal_def Let_def assms(6-10) by simp
  from r f e1 e2 show ?thesis by blast
qed

theorem normal_policy_worked_example_witness:
  "round_up 500 = 500
   \<and> evaluate_normal example_store example_clock ''c1'' (low_roas_campaign 500) example_snaps =
       Some \<lparr>campaign_id = Some ''c1'', act = SetBudget, new_budget = Some 500,
             reason = RoasLowFreeze, act_channel = ''shop'', schedule_key = None\<rparr>
   \<and> evaluate_normal example_store example_clock ''c2'' (low_roas_campaign 150) example_snaps =
       Some \<lparr>campaign_id = Some ''c2'', act = Pause, new_budget = None,
             reason = RoasLowPause, act_channel = ''shop'', schedule_key = None\<rparr>"
  using normal_policy_worked_example[where ?cam1.0 = "low_roas_campaign 500"
          and ?cam2.0 = "low_roas_campaign 150" and ?id1.0 = "''c1''" and ?id2.0 = "''c2''"
          and ?fb1.0 = example_store and ?fb2.0 = example_store
          and ?now1.0 = example_clock and ?now2.0 = example_clock
          and ?snaps1.0 = example_snaps and ?snaps2.0 = example_snaps]
  by (simp add: low_roas_campaign_def empty_campaign_def get_default_def)

subsection \<open>Evaluating the string primitives and the example snapshots\<close>

lemmas py_eval = py_int_def strip_with_def is_int_space_def py_nat_def is_digit_def digit_of_def

lemma example_keys:
  "py_int ''1699998200000'' = Some 1699998200000"
  "py_int ''1699999400000'' = Some 1699999400000"
  "py_int ''1699999700000'' = Some 1699999700000"
  by (simp_all add: py_eval)

lemma example_clock_strings:
  "strftime_HM example_clock = ''06:00''"
  "strftime_Ymd example_clock = ''2023-11-14''"
  by (simp_all add: strftime_HM_def strftime_Ymd_def zero_pad_def example_clock_def
      digit_char_def str_nat.simps)

lemma example_epoch: "epoch_ms example_clock = 1700000000000"
  by (simp add: example_clock_def)

lemma example_blackout: "in_time_window example_clock ''03:00'' ''05:00'' = False"
  by code_simp

lemma example_snaps_c1:
  "get_default (map_of example_snaps ''c1'') [] =
     [(''1699998200000'', \<lparr>spent = Some 10, cart = Some 2, clicks = None, orders = None, sales = None\<rparr>),
      (''1699999400000'', \<lparr>spent = Some 20, cart = Some 4, clicks = None, orders = None, sales = None\<rparr>),
      (''1699999700000'', \<lparr>spent = Some 30, cart = Some 6, clicks = None, orders = None, sales = None\<rparr>)]"
  by (simp add: example_snaps_def get_default_def)

lemma example_cart_good:
  "is_cart_good (epoch_ms example_clock) (get_default (map_of example_snaps ''c1'') []) 5 60"
  "is_cart_good (epoch_ms example_clock) (get_default (map_of example_snaps ''c1'') []) 5 15"
  unfolding example_snaps_c1
  by (simp_all add: is_cart_good_def example_clock_def get_default_def example_keys Let_def)

subsection \<open>Normal policy, rule 2: budget threshold reached\<close>

text \<open>
  C6. Rule 2 is reached when rule 1 does not match, that is, unless
  \<open>0 < roas < roas_target * roas_min_pct\<close>. Then, for a campaign whose used share of the
  budget is at least \<^verbatim>\<open>budget_threshold\<close>: if \<open>roas \<ge> roas_target\<close> the engine emits
  \<^verbatim>\<open>increase_budget\<close> to \<open>calc_increment daily_budget\<close>; otherwise it tries the windows that
  are not switched off in the order 180, 60, 15 and emits the same increase for the first
  one whose verdict is good, the reason naming that window; when none is good it goes on
  to the scheduled reactivation.
\<close>

theorem budget_threshold_rule:
  fixes cam :: campaign and cam_id :: string and fb :: store and now :: clock
    and snaps :: snapshots
  defines "spent' \<equiv> get_default (spent_today cam) 0"
    and "budget \<equiv> get_default (daily_budget cam) 200"
    and "roas' \<equiv> get_default (roas cam) 0"
    and "target \<equiv> get_default (roas_target cam) 30"
    and "good \<equiv> is_cart_good (epoch_ms now) (get_default (map_of snaps cam_id) [])
                   (get_default (cart_value cam) 5)"
    and "increase \<equiv> \<lambda>r. Some \<lparr>campaign_id = Some cam_id, act = IncreaseBudget,
                   new_budget = Some (calc_increment (get_default (daily_budget cam) 200) None),
                   reason = r, act_channel = get_default (channel cam) cam_id,
                   schedule_key = None\<rparr>"
  assumes "\<not> (0 < roas' \<and> roas' < target * (get_default (roas_min_pct cam) 50 / 100))"
    and "(if budget > 0 then spent' / budget else 0) \<ge> get_default (budget_threshold cam) 90 / 100"
  shows "evaluate_normal fb now cam_id cam snaps =
           (if roas' \<ge> target then increase RoasGood
            else if eval_180 cam \<noteq> Some False \<and> good 180 then increase (CartGoodIn 180)
            else if eval_60 cam \<noteq> Some False \<and> good 60 then increase (CartGoodIn 60)
            else if eval_15 cam \<noteq> Some False \<and> good 15 then increase (CartGoodIn 15)
            else if status cam = Some ''budget_full'' \<or> status cam = Some ''paused''
                 then check_schedule fb now cam
            else None)"
proof -
  have rule1: "(get_default (roas cam) 0 > 0 \<and> get_default (roas cam) 0
        < get_default (roas_target cam) 30 * (get_default (roas_min_pct cam) 50 / 100)) = False"
    using assms(7) unfolding assms(1-6) by simp
  have thr: "(get_default (budget_threshold cam) 90 / 100
        \<le> (if 0 < get_default (daily_budget cam) 200
            then get_default (spent_today cam) 0 / get_default (daily_budget cam) 200 else 0)) = True"
    using assms(8) unfolding assms(1-6) by simp
  show ?thesis
    unfolding evaluate_normal_def Let_def assms(1-6) rule1 thr
    by (cases "eval_180 cam = Some False"; cases "eval_60 cam = Some False";
        cases "eval_15 cam = Some False") simp_all
qed


theorem budget_threshold_rule_witness:
  "evaluate_normal example_store example_clock ''c1'' near_limit_campaign example_snaps =
     Some \<lparr>campaign_id = Some ''c1'', act = IncreaseBudget, new_budget = Some 225,
           reason = CartGoodIn 60, act_channel = ''shop'', schedule_key = None\<rparr>
   \<and> evaluate_normal example_store example_clock ''c1''
        (near_limit_campaign\<lparr>roas := Some 35\<rparr>) example_snaps =
     Some \<lparr>campaign_id = Some ''c1'', act = IncreaseBudget, new_budget = Some 225,
           reason = RoasGood, act_channel = ''shop'', schedule_key = None\<rparr>"
proof -
  have i: "calc_increment 200 None = 225"
    by (simp add: calc_increment_def round_up_def MIN_BUDGET_def BUDGET_INCREMENT_def)
  have h1: "evaluate_normal example_store example_clock ''c1'' near_limit_campaign example_snaps =
     Some \<lparr>campaign_id = Some ''c1'', act = IncreaseBudget, new_budget = Some 225,
           reason = CartGoodIn 60, act_channel = ''shop'', schedule_key = None\<rparr>"
    by (subst budget_threshold_rule)
       (simp_all add: near_limit_campaign_def empty_campaign_def get_default_def
          example_snaps_def is_cart_good_def example_keys example_clock_def Let_def i)
  have h2: "evaluate_normal example_store example_clock ''c1''
        (near_limit_campaign\<lparr>roas := Some 35\<rparr>) example_snaps =
     Some \<lparr>campaign_id = Some ''c1'', act = IncreaseBudget, new_budget = Some 225,
           reason = RoasGood, act_channel = ''shop'', schedule_key = None\<rparr>"
    by (subst budget_threshold_rule)
       (simp_all add: near_limit_campaign_def empty_campaign_def get_default_def i)
  from h1 h2 show ?thesis by (rule conjI)
qed

subsection \<open>Competition policy: the cart verdict sizes the increase, it does not gate it\<close>

text \<open>
  What the competition policy does once its conditions are met, with \<open>elapsed\<close> as the
  code computes it. For a campaign outside its blackout window, with the used share of
  the budget at least 0.99 or status \<^verbatim>\<open>budget_full\<close>, and with
  \<open>elapsed \<ge> competition_interval\<close>, where \<open>elapsed\<close> is the minutes since
  \<^verbatim>\<open>last_auto_action\<close> and is the constant 999 when that was never set (or is 0),
  \<^verbatim>\<open>evaluate_competition\<close> always emits \<^verbatim>\<open>increase_budget\<close>: to
  \<open>calc_increment daily_budget competition_amount\<close> when the 15-minute verdict is good and
  to \<open>calc_increment daily_budget 25\<close> otherwise.
\<close>

theorem competition_increase_not_gated:
  fixes cam :: campaign and cam_id :: string and now :: clock and snaps :: snapshots
  defines "spent' \<equiv> get_default (spent_today cam) 0"
    and "budget \<equiv> get_default (daily_budget cam) 200"
    and "interval \<equiv> get_default (competition_interval cam) 30"
    and "last_action \<equiv> get_default (last_auto_action cam) 0"
    and "amount \<equiv> get_default (competition_amount cam) 25"
    and "good \<equiv> is_cart_good (epoch_ms now) (get_default (map_of snaps cam_id) [])
                   (get_default (cart_value cam) 5) 15"
  assumes "\<not> in_time_window now (get_default (no_increase_start cam) ''03:00'')
               (get_default (no_increase_end cam) ''05:00'')"
    and "(if budget > 0 then spent' / budget else 0) \<ge> 0.99 \<or> status cam = Some ''budget_full''"
    and "(if last_action \<noteq> 0
          then (real_of_int (epoch_ms now) - real_of_int last_action) / 60000 else 999)
         \<ge> real_of_int interval"
  shows "evaluate_competition now cam_id cam snaps =
           Some \<lparr>campaign_id = Some cam_id, act = IncreaseBudget,
                 new_budget = Some (if good then calc_increment budget (Some amount)
                                    else calc_increment budget (Some 25)),
                 reason = (if good then CompetitionCartGood amount
                           else CompetitionInterval interval),
                 act_channel = get_default (channel cam) cam_id, schedule_key = None\<rparr>"
proof -
  have w: "in_time_window now (get_default (no_increase_start cam) ''03:00'')
               (get_default (no_increase_end cam) ''05:00'') = False"
    using assms(7) by simp
  have f: "(0.99 \<le> (if 0 < get_default (daily_budget cam) 200
                     then get_default (spent_today cam) 0 / get_default (daily_budget cam) 200
                     else 0)
            \<or> status cam = Some ''budget_full'') = True"
    using assms(8) unfolding assms(1-6) by simp
  have e: "(real_of_int (get_default (competition_interval cam) 30)
            \<le> (if get_default (last_auto_action cam) 0 \<noteq> 0
                then (real_of_int (epoch_ms now)
                      - real_of_int (get_default (last_auto_action cam) 0)) / 60000
                else 999)) = True"
    using assms(9) unfolding assms(1-6) by simp
  show ?thesis
    unfolding evaluate_competition_def Let_def assms(1-6) w f e by simp
qed

theorem competition_increase_not_gated_witness:
  "evaluate_competition example_clock ''c1'' competition_campaign example_snaps =
     Some \<lparr>campaign_id = Some ''c1'', act = IncreaseBudget, new_budget = Some 250,
           reason = CompetitionCartGood 50, act_channel = ''shop'', schedule_key = None\<rparr>
   \<and> evaluate_competition example_clock ''c2'' budget_full_campaign example_snaps =
     Some \<lparr>campaign_id = Some ''c2'', act = IncreaseBudget, new_budget = Some 225,
           reason = CompetitionInterval 30, act_channel = ''shop'', schedule_key = None\<rparr>"
proof -
  have i: "calc_increment 200 (Some 50) = 250" "calc_increment 200 (Some 25) = 225"
    by (simp_all add: calc_increment_def round_up_def MIN_BUDGET_def)
  have h1: "evaluate_competition example_clock ''c1'' competition_campaign example_snaps =
     Some \<lparr>campaign_id = Some ''c1'', act = IncreaseBudget, new_budget = Some 250,
           reason = CompetitionCartGood 50, act_channel = ''shop'', schedule_key = None\<rparr>"
    by (subst competition_increase_not_gated)
       (simp_all add: competition_campaign_def empty_campaign_def get_default_def
          example_blackout example_snaps_def is_cart_good_def example_keys example_epoch
          Let_def i)
  have h2: "evaluate_competition example_clock ''c2'' budget_full_campaign example_snaps =
     Some \<lparr>campaign_id = Some ''c2'', act = IncreaseBudget, new_budget = Some 225,
           reason = CompetitionInterval 30, act_channel = ''shop'', schedule_key = None\<rparr>"
    by (subst competition_increase_not_gated)
       (simp_all add: budget_full_campaign_def empty_campaign_def get_default_def
          example_blackout example_snaps_def is_cart_good_def i)
  from h1 h2 show ?thesis by (rule conjI)
qed

text \<open>
  C5 at a concrete campaign. The campaign is outside its blackout window, its budget is
  used up and its status is \<^verbatim>\<open>budget_full\<close>, it has never acted (no
  \<^verbatim>\<open>last_auto_action\<close>), and its \<^verbatim>\<open>competition_interval\<close> is 1000 minutes. The time since
  the last action should count as very large; the code takes 999, which is less than
  1000, and emits nothing. Nothing else sets \<^verbatim>\<open>last_auto_action\<close>, so this campaign is
  never increased.
\<close>

theorem competition_never_acted_long_interval:
  "\<not> in_time_window example_clock
        (get_default (no_increase_start never_acted_campaign) ''03:00'')
        (get_default (no_increase_end never_acted_campaign) ''05:00'')
   \<and> get_default (spent_today never_acted_campaign) 0
       / get_default (daily_budget never_acted_campaign) 200 \<ge> 0.99
   \<and> status never_acted_campaign = Some ''budget_full''
   \<and> last_auto_action never_acted_campaign = None
   \<and> competition_interval never_acted_campaign = Some 1000
   \<and> evaluate_competition example_clock ''c1'' never_acted_campaign example_snaps = None"
  by (simp add: evaluate_competition_def Let_def never_acted_campaign_def empty_campaign_def
      get_default_def example_blackout)

subsection \<open>The window evaluator\<close>

lemma snaps_in_window_filter:
  "snaps_in_window lo hi xs =
     filter (\<lambda>e. lo \<le> fst e \<and> fst e \<le> hi)
       (List.map_filter (\<lambda>kd. map_option (\<lambda>ts. (ts, snd kd)) (py_int (fst kd))) xs)"
  by (induction xs) (auto split: option.splits)

lemma in_snaps_in_window:
  "(ts, d) \<in> set (snaps_in_window lo hi xs) \<longleftrightarrow>
     (\<exists>k. (k, d) \<in> set xs \<and> py_int k = Some ts \<and> lo \<le> ts \<and> ts \<le> hi)"
proof (induction xs)
  case Nil
  then show ?case by simp
next
  case (Cons x xs)
  obtain k0 d0 where x: "x = (k0, d0)" by (cases x)
  have "(ts, d) \<in> set (snaps_in_window lo hi (x # xs)) \<longleftrightarrow>
          (d = d0 \<and> py_int k0 = Some ts \<and> lo \<le> ts \<and> ts \<le> hi)
          \<or> (ts, d) \<in> set (snaps_in_window lo hi xs)"
    unfolding x by (cases "py_int k0") auto
  also have "\<dots> \<longleftrightarrow>
          (d = d0 \<and> py_int k0 = Some ts \<and> lo \<le> ts \<and> ts \<le> hi)
          \<or> (\<exists>k. (k, d) \<in> set xs \<and> py_int k = Some ts \<and> lo \<le> ts \<and> ts \<le> hi)"
    unfolding Cons.IH ..
  also have "\<dots> \<longleftrightarrow>
          (\<exists>k. (k, d) \<in> set (x # xs) \<and> py_int k = Some ts \<and> lo \<le> ts \<and> ts \<le> hi)"
    unfolding x by auto
  finally show ?case .
qed

lemma set_snaps_in_window:
  "set (snaps_in_window lo hi xs) =
     {(ts, d). \<exists>k. (k, d) \<in> set xs \<and> py_int k = Some ts \<and> lo \<le> ts \<and> ts \<le> hi}"
  using in_snaps_in_window[of _ _ lo hi xs] by auto

lemma spec_window_code:
  "spec_window now_ms cam_snaps minutes =
     sort_key fst (snaps_in_window (now_ms - minutes * 60 * 1000) now_ms cam_snaps)"
proof -
  have e: "now_ms - minutes * 60 * 1000 = now_ms - minutes * 60000" by simp
  show ?thesis unfolding spec_window_def snaps_in_window_filter e by (rule refl)
qed

text \<open>
  C3. \<^verbatim>\<open>_is_cart_good\<close> is the verdict of the specification on the window of the
  specification: false for fewer than two points; otherwise, with the first and the last
  point of the window in time order, false when \<open>spent_diff < cart_value\<close> or
  \<open>cart_diff \<le> 0\<close>, and else true exactly when
  \<open>spent_diff / cart_diff \<le> cart_value * 1.5\<close>. The window is sorted by time and holds
  exactly the snapshots with a timestamp between \<open>now - minutes * 60000\<close> and \<open>now\<close>.
\<close>

theorem is_cart_good_verdict:
  "is_cart_good now_ms cam_snaps cart_value' minutes =
     spec_verdict (spec_window now_ms cam_snaps minutes) cart_value'
   \<and> sorted (map fst (spec_window now_ms cam_snaps minutes))
   \<and> set (spec_window now_ms cam_snaps minutes) =
       {(ts, d). \<exists>k. (k, d) \<in> set cam_snaps \<and> py_int k = Some ts
                   \<and> now_ms - minutes * 60000 \<le> ts \<and> ts \<le> now_ms}"
proof -
  have v: "is_cart_good now_ms cam_snaps cart_value' minutes =
     spec_verdict (spec_window now_ms cam_snaps minutes) cart_value'"
  proof (cases "cam_snaps = []")
    case True
    then show ?thesis by (simp add: is_cart_good_def spec_verdict_def spec_window_code)
  next
    case False
    then show ?thesis
      unfolding is_cart_good_def spec_verdict_def spec_window_code Let_def by auto
  qed
  have s: "sorted (map fst (spec_window now_ms cam_snaps minutes))"
    unfolding spec_window_def by simp
  have m: "set (spec_window now_ms cam_snaps minutes) =
       {(ts, d). \<exists>k. (k, d) \<in> set cam_snaps \<and> py_int k = Some ts
                   \<and> now_ms - minutes * 60000 \<le> ts \<and> ts \<le> now_ms}"
  proof -
    have e: "now_ms - minutes * 60 * 1000 = now_ms - minutes * 60000" by simp
    show ?thesis unfolding spec_window_code set_sort set_snaps_in_window e by (rule refl)
  qed
  from v s m show ?thesis by blast
qed

theorem is_cart_good_verdict_witness:
  "is_cart_good 600000 spec_example_window 5 15
   \<and> \<not> is_cart_good 600000 spec_example_window 1 15
   \<and> \<not> is_cart_good 600000 (tl spec_example_window) 5 15
   \<and> spec_window 600000 spec_example_window 15 =
       [(0, \<lparr>spent = Some 10, cart = Some 2, clicks = None, orders = None, sales = None\<rparr>),
        (600000, \<lparr>spent = Some 20, cart = Some 4, clicks = None, orders = None, sales = None\<rparr>)]"
proof -
  have k: "py_int ''0'' = Some 0" "py_int ''600000'' = Some 600000"
    by (simp_all add: py_eval)
  have w: "spec_window 600000 spec_example_window 15 =
       [(0, \<lparr>spent = Some 10, cart = Some 2, clicks = None, orders = None, sales = None\<rparr>),
        (600000, \<lparr>spent = Some 20, cart = Some 4, clicks = None, orders = None, sales = None\<rparr>)]"
    by (simp add: spec_window_def spec_example_window_def k)
  have w1: "spec_window 600000 (tl spec_example_window) 15 =
       [(600000, \<lparr>spent = Some 20, cart = Some 4, clicks = None, orders = None, sales = None\<rparr>)]"
    by (simp add: spec_window_def spec_example_window_def k)
  have v1: "spec_verdict (spec_window 600000 spec_example_window 15) 5"
    unfolding w by (simp add: spec_verdict_def get_default_def)
  have v2: "\<not> spec_verdict (spec_window 600000 spec_example_window 15) 1"
    unfolding w by (simp add: spec_verdict_def get_default_def)
  have v3: "\<not> spec_verdict (spec_window 600000 (tl spec_example_window) 15) 5"
    unfolding w1 by (simp add: spec_verdict_def)
  have c1: "is_cart_good 600000 spec_example_window 5 15"
    using is_cart_good_verdict[THEN conjunct1, of 600000 spec_example_window 5 15] v1 by blast
  have c2: "\<not> is_cart_good 600000 spec_example_window 1 15"
    using is_cart_good_verdict[THEN conjunct1, of 600000 spec_example_window 1 15] v2 by blast
  have c3: "\<not> is_cart_good 600000 (tl spec_example_window) 5 15"
    using is_cart_good_verdict[THEN conjunct1, of 600000 "tl spec_example_window" 5 15] v3
    by blast
  from c1 c2 c3 w show ?thesis by blast
qed

subsection \<open>Scheduled reactivation fires once per day and time\<close>

lemma check_schedule_loop_key:
  "check_schedule_loop fb cam now ts = Some a \<Longrightarrow>
   schedule_key a = Some (strftime_Ymd now @ ''_'' @ strftime_HM now)"
proof (induction ts)
  case Nil
  then show ?case by simp
next
  case (Cons t ts)
  show ?case
  proof (cases "check_schedule_loop fb cam now (t # ts) = check_schedule_loop fb cam now ts")
    case True
    with Cons show ?thesis by simp
  next
    case False
    with Cons.prems show ?thesis by (auto simp: Let_def split: if_splits)
  qed
qed

lemma check_schedule_loop_acted:
  "last_schedule_action cam = Some (strftime_Ymd now @ ''_'' @ strftime_HM now) \<Longrightarrow>
   check_schedule_loop fb cam now ts = None"
  by (induction ts) (simp_all add: Let_def)

lemma evaluate_normal_scheduled:
  assumes "evaluate_normal fb now cam_id cam snaps = Some a" and "schedule_key a = Some k"
  shows "check_schedule fb now cam = Some a"
proof (rule ccontr)
  assume "check_schedule fb now cam \<noteq> Some a"
  with assms(1) have "schedule_key a = None"
    unfolding evaluate_normal_def Let_def
    by (auto split: if_splits option.splits)
  with assms(2) show False by simp
qed

lemma map_of_update_node:
  "map_of (update_node cid u cams) cid =
     Some (apply_updates u (get_default (map_of cams cid) empty_campaign))"
  by (induction cams) (auto simp: get_default_def)


lemma execute_action_effects:
  assumes "fst (execute_action cfg api_ok now a cookie_str fb)"
  shows "execute_action cfg api_ok now a cookie_str fb =
           (True,
            fb_push_log (action_log_entry now a)
              (case campaign_id a of
                 None \<Rightarrow> fb
               | Some c \<Rightarrow> if truthy c then fb_update_campaign c (action_updates now a) fb else fb),
            action_api_events cfg api_ok a cookie_str
            @ (case campaign_id a of
                 None \<Rightarrow> []
               | Some c \<Rightarrow> if truthy c then [StoreUpdate c (action_updates now a)] else [])
            @ [LogPush (action_log_entry now a)])"
proof (cases "act a = IncreaseBudget \<or> act a = SetBudget")
  case True
  have "fst (validate (get_default (new_budget a) 200))"
  proof (rule ccontr)
    assume "\<not> fst (validate (get_default (new_budget a) 200))"
    then obtain msg where "validate (get_default (new_budget a) 200) = (False, msg)"
      by (cases "validate (get_default (new_budget a) 200)") auto
    with True assms show False unfolding execute_action_def Let_def by simp
  qed
  then have v: "validate (get_default (new_budget a) 200) = (True, OK)" by (rule validate_True)
  show ?thesis using True
    unfolding execute_action_def Let_def v action_updates_def action_api_events_def
      action_log_entry_def
    by (cases "campaign_id a") auto
next
  case False
  then show ?thesis
    unfolding execute_action_def Let_def action_updates_def action_api_events_def
      action_log_entry_def
    by (cases "campaign_id a"; cases "act a") auto
qed


text \<open>
  The idempotency key where it works. When an evaluation at some day and minute emits a
  scheduled action and the executor applies it, the node of the action's campaign id
  holds the key \<open>"<today>_<time>"\<close> in \<^verbatim>\<open>last_schedule_action\<close>; evaluating that node's
  campaign again within the same minute of the same day yields no scheduled action,
  whatever its status has become in between, with any store and any snapshots.
\<close>

theorem schedule_fires_once:
  assumes "evaluate_normal fb now cam_id cam snaps = Some a"
    and "schedule_key a = Some k"
    and "campaign_id a = Some cid" and "cid \<noteq> []"
    and "execute_action cfg api_ok now1 a cookie_str fb1 = (applied, fb', tr)"
    and "strftime_Ymd now2 = strftime_Ymd now" and "strftime_HM now2 = strftime_HM now"
  shows "k = strftime_Ymd now @ ''_'' @ strftime_HM now \<and> applied
       \<and> (\<exists>cam'. map_of (campaigns fb') cid = Some cam'
                \<and> last_schedule_action cam' = Some k
                \<and> check_schedule fb2 now2 (cam'\<lparr>status := s\<rparr>) = None
                \<and> map_option schedule_key
                     (evaluate_normal fb2 now2 cid2 (cam'\<lparr>status := s\<rparr>) snaps2)
                   \<in> {None, Some None})"
proof -
  have cs: "check_schedule fb now cam = Some a"
    using assms(1,2) by (rule evaluate_normal_scheduled)
  then have key: "schedule_key a = Some (strftime_Ymd now @ ''_'' @ strftime_HM now)"
    unfolding check_schedule_def Let_def by (rule check_schedule_loop_key)
  with assms(2) have k: "k = strftime_Ymd now @ ''_'' @ strftime_HM now" by simp
  then have tk: "truthy k" by (simp add: truthy_def)
  have "\<forall>nb. new_budget a = Some nb \<longrightarrow> fst (validate nb)"
    using assms(1) by (rule evaluate_normal_budget)
  then have ok: "fst (execute_action cfg api_ok now1 a cookie_str fb1)"
    by (rule execute_action_applied)
  with assms(5) have applied: "applied" by simp
  have fb': "fb' = fb_push_log (action_log_entry now1 a)
                     (fb_update_campaign cid (action_updates now1 a) fb1)"
    using execute_action_effects[OF ok] assms(3,4,5) by (simp add: truthy_def)
  define cam' where
    "cam' = apply_updates (action_updates now1 a) (get_default (map_of (campaigns fb1) cid) empty_campaign)"
  have look: "map_of (campaigns fb') cid = Some cam'"
    unfolding fb' cam'_def
    by (simp add: fb_push_log_def fb_update_campaign_def map_of_update_node)
  have last: "last_schedule_action cam' = Some k"
    unfolding cam'_def apply_updates_def action_updates_def using assms(2) tk by simp
  have last2: "last_schedule_action (cam'\<lparr>status := s\<rparr>)
                 = Some (strftime_Ymd now2 @ ''_'' @ strftime_HM now2)"
    using last k assms(6,7) by simp
  have none: "check_schedule fb2 now2 (cam'\<lparr>status := s\<rparr>) = None"
    unfolding check_schedule_def Let_def using last2 by (rule check_schedule_loop_acted)
  have ev: "map_option schedule_key
              (evaluate_normal fb2 now2 cid2 (cam'\<lparr>status := s\<rparr>) snaps2) \<in> {None, Some None}"
  proof (cases "evaluate_normal fb2 now2 cid2 (cam'\<lparr>status := s\<rparr>) snaps2")
    case None
    then show ?thesis by simp
  next
    case (Some a2)
    have "schedule_key a2 = None"
    proof (cases "schedule_key a2")
      case None
      then show ?thesis .
    next
      case (Some k2)
      with \<open>evaluate_normal fb2 now2 cid2 (cam'\<lparr>status := s\<rparr>) snaps2 = Some a2\<close>
      have "check_schedule fb2 now2 (cam'\<lparr>status := s\<rparr>) = Some a2"
        by (rule evaluate_normal_scheduled)
      with none show ?thesis by simp
    qed
    with Some show ?thesis by simp
  qed
  from k applied look last none ev show ?thesis by blast
qed


theorem schedule_fires_once_witness:
  "evaluate_normal schedule_store example_clock ''c1'' paused_campaign [] = Some resume_action
   \<and> fst (execute_action example_config True example_clock resume_action ''SPC_EC=abc''
            schedule_store)
   \<and> (\<exists>cam'. map_of (campaigns (fst (snd (execute_action example_config True example_clock
                   resume_action ''SPC_EC=abc'' schedule_store)))) ''c1'' = Some cam'
          \<and> last_schedule_action cam' = Some ''2023-11-14_06:00''
          \<and> check_schedule schedule_store (example_clock\<lparr>epoch_ms := 1700000030000\<rparr>)
               (cam'\<lparr>status := Some ''paused''\<rparr>) = None)"
proof -
  have c: "check_schedule schedule_store example_clock paused_campaign = Some resume_action"
    unfolding check_schedule_def Let_def
    by (simp add: paused_campaign_def empty_campaign_def get_default_def
        py_strip_def strip_with_def is_space_def example_clock_strings schedule_store_def
        find_campaign_id_def resume_action_def)
  have h: "evaluate_normal schedule_store example_clock ''c1'' paused_campaign [] = Some resume_action"
    unfolding evaluate_normal_def Let_def c
    by (simp add: paused_campaign_def empty_campaign_def get_default_def)
  have k: "schedule_key resume_action = Some ''2023-11-14_06:00''"
    and i: "campaign_id resume_action = Some ''c1''"
    by (simp_all add: resume_action_def)
  have e: "execute_action example_config True example_clock resume_action ''SPC_EC=abc''
             schedule_store =
           (fst (execute_action example_config True example_clock resume_action ''SPC_EC=abc''
                  schedule_store),
            fst (snd (execute_action example_config True example_clock resume_action
                  ''SPC_EC=abc'' schedule_store)),
            snd (snd (execute_action example_config True example_clock resume_action
                  ''SPC_EC=abc'' schedule_store)))"
    by simp
  have y: "strftime_Ymd (example_clock\<lparr>epoch_ms := 1700000030000\<rparr>) = strftime_Ymd example_clock"
    and m: "strftime_HM (example_clock\<lparr>epoch_ms := 1700000030000\<rparr>) = strftime_HM example_clock"
    by (simp_all add: strftime_Ymd_def strftime_HM_def)
  have n: "''c1'' \<noteq> []" by simp
  show ?thesis
    using schedule_fires_once[OF h k i n e y m, of schedule_store "Some ''paused''"] h
    by blast
qed


text \<open>
  C7 at a concrete store. Two paused campaigns \<open>c1\<close> and \<open>c2\<close> share the channel
  \<open>shop\<close>. At 06:00 the evaluation of \<open>c2\<close> emits the scheduled resume, but with the
  campaign id \<open>c1\<close>: \<^verbatim>\<open>_check_schedule\<close> looks the id up by channel and takes the first
  campaign that has it. Executing the action writes the key to the node of \<open>c1\<close> and
  leaves \<open>c2\<close> as it was. Thirty seconds later, in the same minute, the evaluation of
  \<open>c2\<close> emits the same scheduled action a second time.
\<close>

theorem schedule_fires_again_on_shared_channel:
  "evaluate_normal shared_channel_store example_clock ''c2'' paused_campaign [] =
     Some resume_action
   \<and> campaign_id resume_action = Some ''c1''
   \<and> fst (execute_action example_config True example_clock resume_action ''SPC_EC=abc''
            shared_channel_store)
   \<and> map_of (campaigns (fst (snd (execute_action example_config True example_clock
                 resume_action ''SPC_EC=abc'' shared_channel_store)))) ''c2''
       = Some paused_campaign
   \<and> evaluate_normal
        (fst (snd (execute_action example_config True example_clock resume_action
                     ''SPC_EC=abc'' shared_channel_store)))
        (example_clock\<lparr>epoch_ms := 1700000030000\<rparr>) ''c2'' paused_campaign [] =
     Some resume_action"
proof -
  have y: "strftime_Ymd (example_clock\<lparr>epoch_ms := 1700000030000\<rparr>) = ''2023-11-14''"
    and m: "strftime_HM (example_clock\<lparr>epoch_ms := 1700000030000\<rparr>) = ''06:00''"
    using example_clock_strings by (simp_all add: strftime_Ymd_def strftime_HM_def)
  have e: "execute_action example_config True example_clock resume_action ''SPC_EC=abc''
             shared_channel_store =
           (True,
            fb_push_log (action_log_entry example_clock resume_action)
              (fb_update_campaign ''c1'' (action_updates example_clock resume_action)
                 shared_channel_store),
            action_api_events example_config True resume_action ''SPC_EC=abc''
            @ [StoreUpdate ''c1'' (action_updates example_clock resume_action)]
            @ [LogPush (action_log_entry example_clock resume_action)])"
    by (subst execute_action_effects)
       (simp_all add: execute_action_applied resume_action_def truthy_def)
  have c1: "check_schedule shared_channel_store example_clock paused_campaign = Some resume_action"
    unfolding check_schedule_def Let_def
    by (simp add: paused_campaign_def empty_campaign_def get_default_def
        py_strip_def strip_with_def is_space_def example_clock_strings shared_channel_store_def
        find_campaign_id_def resume_action_def)
  have h1: "evaluate_normal shared_channel_store example_clock ''c2'' paused_campaign [] =
     Some resume_action"
    unfolding evaluate_normal_def Let_def c1
    by (simp add: paused_campaign_def empty_campaign_def get_default_def)
  have c2: "check_schedule
        (fb_push_log (action_log_entry example_clock resume_action)
              (fb_update_campaign ''c1'' (action_updates example_clock resume_action)
                 shared_channel_store))
        (example_clock\<lparr>epoch_ms := 1700000030000\<rparr>) paused_campaign = Some resume_action"
    unfolding check_schedule_def Let_def
    by (simp add: paused_campaign_def empty_campaign_def get_default_def
        py_strip_def strip_with_def is_space_def y m shared_channel_store_def
        find_campaign_id_def resume_action_def fb_push_log_def fb_update_campaign_def
        apply_updates_def)
  have h2: "evaluate_normal
        (fb_push_log (action_log_entry example_clock resume_action)
              (fb_update_campaign ''c1'' (action_updates example_clock resume_action)
                 shared_channel_store))
        (example_clock\<lparr>epoch_ms := 1700000030000\<rparr>) ''c2'' paused_campaign [] =
     Some resume_action"
    unfolding evaluate_normal_def Let_def c2
    by (simp add: paused_campaign_def empty_campaign_def get_default_def)
  have n: "map_of (campaigns (fb_push_log (action_log_entry example_clock resume_action)
              (fb_update_campaign ''c1'' (action_updates example_clock resume_action)
                 shared_channel_store))) ''c2'' = Some paused_campaign"
    by (simp add: fb_push_log_def fb_update_campaign_def shared_channel_store_def)
  have i: "campaign_id resume_action = Some ''c1''" by (simp add: resume_action_def)
  show ?thesis unfolding e using h1 h2 n i by simp
qed

subsection \<open>The executor: one store write, after the API call, whatever the call returns\<close>

lemma action_api_events_api: "list_all is_api_event (action_api_events cfg api_ok a cookie_str)"
  by (simp add: action_api_events_def)

lemma action_api_events_length: "length (action_api_events cfg api_ok a cookie_str) \<le> 1"
  by (simp add: action_api_events_def)

lemma execute_action_applied_any_outcome:
  "fst (execute_action cfg api_ok now a cookie_str fb)
   = fst (execute_action cfg api_ok' now a cookie_str fb)"
  unfolding execute_action_def Let_def
  by (cases "validate (get_default (new_budget a) 200)") auto

text \<open>
  C2, as the code has it. For every action the executor applies (one it does not reject
  for its budget) with a non-empty campaign id: the events are the API call, if the
  endpoint is configured and there is a cookie, then one update of the campaign's node
  with \<^verbatim>\<open>last_auto_action\<close>, the status, the budget of a budget action and
  \<^verbatim>\<open>last_schedule_action\<close> when the action carries a schedule key, then the push to the
  log. The store write comes after the API call, not before it; and the returned flag and
  the store afterwards are the same whether the API call succeeded or failed.
\<close>

theorem store_write_follows_api_call:
  assumes "fst (execute_action cfg api_ok now a cookie_str fb)"
    and "campaign_id a = Some cid" and "cid \<noteq> []"
  shows "execute_action cfg api_ok now a cookie_str fb =
           (True,
            fb_push_log (action_log_entry now a)
              (fb_update_campaign cid (action_updates now a) fb),
            action_api_events cfg api_ok a cookie_str
            @ [StoreUpdate cid (action_updates now a), LogPush (action_log_entry now a)])
       \<and> list_all is_api_event (action_api_events cfg api_ok a cookie_str)
       \<and> length (action_api_events cfg api_ok a cookie_str) \<le> 1
       \<and> fst (execute_action cfg (\<not> api_ok) now a cookie_str fb)
       \<and> fst (snd (execute_action cfg (\<not> api_ok) now a cookie_str fb))
           = fst (snd (execute_action cfg api_ok now a cookie_str fb))
       \<and> map_of (campaigns (fst (snd (execute_action cfg api_ok now a cookie_str fb)))) cid
           = Some (apply_updates (action_updates now a)
                     (get_default (map_of (campaigns fb) cid) empty_campaign))"
proof -
  have e1: "execute_action cfg api_ok now a cookie_str fb =
           (True,
            fb_push_log (action_log_entry now a)
              (fb_update_campaign cid (action_updates now a) fb),
            action_api_events cfg api_ok a cookie_str
            @ [StoreUpdate cid (action_updates now a), LogPush (action_log_entry now a)])"
    using execute_action_effects[OF assms(1)] assms(2,3) by (simp add: truthy_def)
  have ok': "fst (execute_action cfg (\<not> api_ok) now a cookie_str fb)"
    using assms(1) execute_action_applied_any_outcome[of cfg api_ok now a cookie_str fb "\<not> api_ok"]
    by simp
  have e2: "execute_action cfg (\<not> api_ok) now a cookie_str fb =
           (True,
            fb_push_log (action_log_entry now a)
              (fb_update_campaign cid (action_updates now a) fb),
            action_api_events cfg (\<not> api_ok) a cookie_str
            @ [StoreUpdate cid (action_updates now a), LogPush (action_log_entry now a)])"
    using execute_action_effects[OF ok'] assms(2,3) by (simp add: truthy_def)
  have same: "fst (snd (execute_action cfg (\<not> api_ok) now a cookie_str fb))
           = fst (snd (execute_action cfg api_ok now a cookie_str fb))"
    unfolding e1 e2 by simp
  have node: "map_of (campaigns (fst (snd (execute_action cfg api_ok now a cookie_str fb)))) cid
           = Some (apply_updates (action_updates now a)
                     (get_default (map_of (campaigns fb) cid) empty_campaign))"
    unfolding e1 by (simp add: fb_push_log_def fb_update_campaign_def map_of_update_node)
  from e1 ok' same node action_api_events_api action_api_events_length show ?thesis
    by blast
qed

theorem store_write_follows_api_call_witness:
  "snd (snd (execute_action example_config False example_clock pause_action ''SPC_EC=abc''
              schedule_store)) =
     [ApiPause (Some ''c1'') False,
      StoreUpdate ''c1'' \<lparr>upd_last_auto_action = 1700000000000, upd_last_schedule_action = None,
                          upd_daily_budget = None, upd_status = Some ''paused''\<rparr>,
      LogPush \<lparr>log_time = ''06:00'', log_type = ''pause'', log_channel = ''shop'',
               log_message = RoasLowPause, log_timestamp = 1700000000000\<rparr>]
   \<and> fst (snd (execute_action example_config True example_clock pause_action ''SPC_EC=abc''
                 schedule_store))
     = fst (snd (execute_action example_config False example_clock pause_action ''SPC_EC=abc''
                 schedule_store))"
proof -
  have ok: "fst (execute_action example_config False example_clock pause_action ''SPC_EC=abc''
                  schedule_store)"
    by (rule execute_action_applied) (simp add: pause_action_def)
  have i: "campaign_id pause_action = Some ''c1''" by (simp add: pause_action_def)
  have n: "''c1'' \<noteq> []" by simp
  show ?thesis
    using store_write_follows_api_call[OF ok i n]
    by (simp add: action_api_events_def action_updates_def action_log_entry_def
        pause_action_def example_config_def truthy_def log_type_of_def example_epoch
        example_clock_strings)
qed

theorem store_write_first_counterexample:
  "fst (execute_action example_config False example_clock pause_action ''SPC_EC=abc''
         schedule_store)
   \<and> hd (snd (snd (execute_action example_config False example_clock pause_action
                     ''SPC_EC=abc'' schedule_store))) = ApiPause (Some ''c1'') False
   \<and> \<not> store_write_first
         (snd (snd (execute_action example_config False example_clock pause_action
                     ''SPC_EC=abc'' schedule_store)))"
  by (simp add: execute_action_def Let_def pause_action_def example_config_def truthy_def
      store_write_first_def)

subsection \<open>The retention sweep compares keys as strings\<close>

lemma cleanup_keys_store:
  "snapshot_store (cleanup_keys cutoff cid ks fb) =
     map (\<lambda>(k, snaps).
            if k = cid
            then (k, filter (\<lambda>e. \<not> (fst e \<in> set ks \<and> py_str_less (fst e) cutoff)) snaps)
            else (k, snaps))
       (snapshot_store fb)"
proof (induction ks arbitrary: fb)
  case Nil
  have "map (\<lambda>(k, snaps).
              if k = cid
              then (k, filter (\<lambda>e. \<not> (fst e \<in> set [] \<and> py_str_less (fst e) cutoff)) snaps)
              else (k, snaps)) xs = xs"
    for xs :: snapshots
    by (induction xs) auto
  then show ?case by (simp only: cleanup_keys.simps)
next
  case (Cons t ks)
  show ?case
  proof (cases "py_str_less t cutoff")
    case True
    then show ?thesis
      by (simp add: Cons.IH fb_delete_snapshot_def case_prod_unfold comp_def)
         (auto intro!: filter_cong)
  next
    case False
    then show ?thesis
      by (simp add: Cons.IH case_prod_unfold) (auto intro!: filter_cong)
  qed
qed

lemma map_of_map_values:
  "map_of (map (\<lambda>(k, v). if k = cid then (k, f v) else (k, v)) xs) c =
     (if c = cid then map_option f (map_of xs c) else map_of xs c)"
  by (induction xs) auto

lemma cleanup_keys_read:
  "fb_read_snapshots
     (cleanup_keys cutoff cid (map fst (fb_read_snapshots fb cid)) fb) c =
     (if c = cid then filter (\<lambda>e. \<not> py_str_less (fst e) cutoff) (fb_read_snapshots fb cid)
      else fb_read_snapshots fb c)"
proof (cases "c = cid")
  case False
  then show ?thesis
    unfolding fb_read_snapshots_def cleanup_keys_store map_of_map_values by simp
next
  case True
  show ?thesis
  proof (cases "map_of (snapshot_store fb) cid")
    case None
    then show ?thesis
      unfolding fb_read_snapshots_def cleanup_keys_store map_of_map_values using True
      by (simp add: get_default_def)
  next
    case (Some a)
    then show ?thesis
      unfolding fb_read_snapshots_def cleanup_keys_store map_of_map_values using True
      by (simp add: get_default_def, intro filter_cong, auto)
  qed
qed

lemma cleanup_campaigns_read:
  "fb_read_snapshots (cleanup_campaigns cutoff cids fb) c =
     (if c \<in> set cids then filter (\<lambda>e. \<not> py_str_less (fst e) cutoff) (fb_read_snapshots fb c)
      else fb_read_snapshots fb c)"
proof (induction cids arbitrary: fb)
  case Nil
  then show ?case by simp
next
  case (Cons cid cids)
  show ?case
    by (simp add: Let_def Cons.IH cleanup_keys_read)
qed

text \<open>
  What the sweep does, for every store: a campaign that is swept keeps exactly the
  snapshots whose key is not below the cutoff as a string; others are untouched.
\<close>

lemma cleanup_old_snapshots_read:
  "fb_read_snapshots (cleanup_old_snapshots now cams fb) c =
     (if c \<in> fst ` set cams
      then filter (\<lambda>e. \<not> py_str_less (fst e) (str_int (epoch_ms now - 4 * 3600 * 1000)))
             (fb_read_snapshots fb c)
      else fb_read_snapshots fb c)"
  unfolding cleanup_old_snapshots_def Let_def cleanup_campaigns_read by simp

lemma example_cutoff: "str_int (epoch_ms example_clock - 4 * 3600 * 1000) = ''1699985600000''"
  by (simp add: example_epoch str_int_def digit_char_def str_nat.simps)

text \<open>
  A key with fewer digits than the cutoff. The campaign holds three snapshots: one keyed
  \<open>999999999999\<close> (twelve digits, a time in 2001), one keyed \<open>1699980000000\<close> (older
  than the cutoff \<open>1699985600000\<close>) and one keyed \<open>1699999700000\<close> (newer). The sweep
  deletes the second and keeps the third, and it keeps the first, the oldest of the
  three: \<^verbatim>\<open>ts < cutoff\<close> compares the strings, and \<open>"9\<dots>"\<close> is not below \<open>"1\<dots>"\<close>.
\<close>

theorem cleanup_keeps_stale_short_key:
  "py_int ''999999999999'' = Some 999999999999
   \<and> (999999999999::int) < epoch_ms example_clock - 4 * 3600 * 1000
   \<and> fb_read_snapshots
        (cleanup_old_snapshots example_clock (campaigns stale_store) stale_store) ''c1''
       = [(''999999999999'', example_snapshot 5 1), (''1699999700000'', example_snapshot 30 6)]"
proof -
  have k: "py_int ''999999999999'' = Some 999999999999" by (simp add: py_eval)
  have c: "(999999999999::int) < epoch_ms example_clock - 4 * 3600 * 1000"
    by (simp add: example_epoch)
  have r: "fb_read_snapshots
        (cleanup_old_snapshots example_clock (campaigns stale_store) stale_store) ''c1''
       = [(''999999999999'', example_snapshot 5 1), (''1699999700000'', example_snapshot 30 6)]"
    unfolding cleanup_old_snapshots_def Let_def example_cutoff
    by (simp add: stale_store_def fb_read_snapshots_def fb_delete_snapshot_def get_default_def)
  from k c r show ?thesis by blast
qed

subsection \<open>Decimal keys: string order against numeric order\<close>

lemma below_ten:
  fixes k :: nat
  assumes "k < 10"
  shows "k = 0 \<or> k = 1 \<or> k = 2 \<or> k = 3 \<or> k = 4 \<or> k = 5 \<or> k = 6 \<or> k = 7 \<or> k = 8 \<or> k = 9"
  using assms by (auto simp add: less_Suc_eq numeral_eq_Suc)

lemma digit_char_code: "of_char (digit_char n) = (48::nat) + n mod 10"
proof -
  have "n mod 10 < 10" by simp
  then have "n mod 10 = 0 \<or> n mod 10 = 1 \<or> n mod 10 = 2 \<or> n mod 10 = 3 \<or> n mod 10 = 4
      \<or> n mod 10 = 5 \<or> n mod 10 = 6 \<or> n mod 10 = 7 \<or> n mod 10 = 8 \<or> n mod 10 = 9"
    by (rule below_ten)
  then show ?thesis unfolding digit_char_def by (elim disjE) simp_all
qed

lemma digit_char_eq: "digit_char a = digit_char b \<longleftrightarrow> a mod 10 = b mod 10"
proof
  assume "digit_char a = digit_char b"
  then have "(of_char (digit_char a) :: nat) = of_char (digit_char b)" by simp
  then show "a mod 10 = b mod 10" unfolding digit_char_code by simp
next
  assume "a mod 10 = b mod 10"
  then show "digit_char a = digit_char b" by (simp add: digit_char_def)
qed

lemma str_nat_small: "n < 10 \<Longrightarrow> str_nat n = [digit_char n]"
  by (subst str_nat.simps) simp

lemma str_nat_snoc: "10 \<le> n \<Longrightarrow> str_nat n = str_nat (n div 10) @ [digit_char n]"
  by (subst str_nat.simps) simp

lemma str_nat_nonempty: "str_nat n \<noteq> []"
  by (subst str_nat.simps) simp

lemma py_str_less_snoc:
  "length xs = length ys \<Longrightarrow>
   py_str_less (xs @ [x]) (ys @ [y]) =
     (py_str_less xs ys \<or> (xs = ys \<and> (of_char x :: nat) < of_char y))"
  by (induction xs ys rule: list_induct2) auto

lemma decimal_order:
  fixes q1 q2 r1 r2 :: nat
  assumes "r1 < 10" and "r2 < 10"
  shows "(10 * q1 + r1 < 10 * q2 + r2) = (q1 < q2 \<or> (q1 = q2 \<and> r1 < r2))"
  using assms by arith

lemma str_nat_order:
  "length (str_nat a) = length (str_nat b) \<Longrightarrow>
   py_str_less (str_nat a) (str_nat b) = (a < b) \<and> (str_nat a = str_nat b) = (a = b)"
proof (induction a arbitrary: b rule: str_nat.induct)
  case (1 a)
  show ?case
  proof (cases "a < 10")
    case True
    have b: "b < 10"
    proof (rule ccontr)
      assume "\<not> b < 10"
      then have "str_nat b = str_nat (b div 10) @ [digit_char b]" by (simp add: str_nat_snoc)
      moreover have "length (str_nat (b div 10)) > 0" using str_nat_nonempty by blast
      ultimately show False using "1.prems" True by (simp add: str_nat_small)
    qed
    show ?thesis using True b
      by (simp add: str_nat_small digit_char_code digit_char_eq)
  next
    case False
    have b: "\<not> b < 10"
    proof
      assume "b < 10"
      moreover have "str_nat a = str_nat (a div 10) @ [digit_char a]"
        using False by (simp add: str_nat_snoc)
      moreover have "length (str_nat (a div 10)) > 0" using str_nat_nonempty by blast
      ultimately show False using "1.prems" by (simp add: str_nat_small)
    qed
    have sa: "str_nat a = str_nat (a div 10) @ [digit_char a]"
      using False by (simp add: str_nat_snoc)
    have sb: "str_nat b = str_nat (b div 10) @ [digit_char b]"
      using b by (simp add: str_nat_snoc)
    have len: "length (str_nat (a div 10)) = length (str_nat (b div 10))"
      using "1.prems" unfolding sa sb by simp
    note ih = "1.IH"[OF False len]
    have ord: "(a < b) = (a div 10 < b div 10 \<or> (a div 10 = b div 10 \<and> a mod 10 < b mod 10))"
      using decimal_order[of "a mod 10" "b mod 10" "a div 10" "b div 10"] by simp
    have eq: "(a = b) = (a div 10 = b div 10 \<and> a mod 10 = b mod 10)"
      by (metis div_mult_mod_eq)
    show ?thesis
      unfolding sa sb py_str_less_snoc[OF len] digit_char_code
      using ih ord eq by (auto simp: digit_char_eq)
  qed
qed

lemma sweep_test_numeric:
  assumes "0 \<le> c" and "length (str_nat t) = length (str_int c)"
  shows "py_str_less (str_nat t) (str_int c) = (int t < c)"
proof -
  have s: "str_int c = str_nat (nat c)" using assms(1) by (simp add: str_int_def)
  have n: "(t < nat c) = (int t < c)" using assms(1) by linarith
  have "py_str_less (str_nat t) (str_nat (nat c)) = (t < nat c)"
    using str_nat_order[of t "nat c"] assms(2) unfolding s by blast
  then show ?thesis unfolding s n .
qed


text \<open>
  Where the string test and the time test agree: when every key of the campaign is the
  decimal numeral of its timestamp and has as many digits as the cutoff, the sweep
  keeps exactly the snapshots that are not strictly older than \<open>now - 4h\<close>.
\<close>

lemma cleanup_exact_for_equal_length_keys:
  fixes tsnaps :: "(nat \<times> snapshot) list" and now :: clock
  defines "cutoff \<equiv> epoch_ms now - 4 * 3600 * 1000"
  assumes "0 \<le> cutoff" and "c \<in> fst ` set cams"
    and "fb_read_snapshots fb c = map (\<lambda>e. (str_nat (fst e), snd e)) tsnaps"
    and "\<forall>e \<in> set tsnaps. length (str_nat (fst e)) = length (str_int cutoff)"
  shows "fb_read_snapshots (cleanup_old_snapshots now cams fb) c =
           map (\<lambda>e. (str_nat (fst e), snd e)) (filter (\<lambda>e. \<not> int (fst e) < cutoff) tsnaps)"
proof -
  have f: "filter (\<lambda>e. \<not> py_str_less (str_nat (fst e)) (str_int cutoff)) tsnaps
         = filter (\<lambda>e. \<not> int (fst e) < cutoff) tsnaps"
    using assms(2,5) by (intro filter_cong refl) (simp add: sweep_test_numeric)
  have "fb_read_snapshots (cleanup_old_snapshots now cams fb) c =
          filter (\<lambda>e. \<not> py_str_less (fst e) (str_int cutoff))
            (map (\<lambda>e. (str_nat (fst e), snd e)) tsnaps)"
    unfolding cleanup_old_snapshots_read cutoff_def using assms(3,4) by simp
  also have "\<dots> = map (\<lambda>e. (str_nat (fst e), snd e))
                    (filter (\<lambda>e. \<not> py_str_less (str_nat (fst e)) (str_int cutoff)) tsnaps)"
    by (simp add: filter_map comp_def)
  finally show ?thesis unfolding f .
qed

subsection \<open>The retention sweep on the keys the program writes\<close>

lemma length_str_nat:
  "10 ^ k \<le> n \<Longrightarrow> n < 10 ^ Suc k \<Longrightarrow> length (str_nat n) = Suc k"
proof (induction k arbitrary: n)
  case 0
  then show ?case by (simp add: str_nat_small)
next
  case (Suc k)
  have ge: "10 \<le> n"
  proof -
    have a: "(10::nat) \<le> 10 * 10 ^ k" by simp
    have b: "10 * 10 ^ k \<le> n" using Suc.prems(1) by simp
    from a b show ?thesis by (rule le_trans)
  qed
  have lo: "10 ^ k \<le> n div 10"
  proof -
    have "10 * 10 ^ k \<le> n" using Suc.prems(1) by simp
    then have "(10 * 10 ^ k) div 10 \<le> n div 10" by (rule div_le_mono)
    then show ?thesis by simp
  qed
  have hi: "n div 10 < 10 ^ Suc k"
  proof -
    have "n < 10 ^ Suc k * 10" using Suc.prems(2) by (simp add: mult.commute)
    then show ?thesis by (rule less_mult_imp_div_less)
  qed
  show ?case using Suc.IH[OF lo hi] by (simp add: str_nat_snoc[OF ge])
qed

text \<open>
  C8. \<^verbatim>\<open>take_snapshot\<close> keys a snapshot with \<^verbatim>\<open>str(int(time.time() * 1000))\<close>, the decimal
  numeral of its timestamp, thirteen digits long from September 2001 to November 2286;
  the cutoff is written the same way. For a swept campaign whose snapshots carry such
  keys, and a cutoff in the same range, the sweep leaves exactly the snapshots whose
  timestamp is not strictly before \<open>now - 4h\<close>, each one unchanged and in its place; it
  deletes all the others.
\<close>

theorem cleanup_exact_on_written_keys:
  fixes tsnaps :: "(nat \<times> snapshot) list" and now :: clock
  defines "cutoff \<equiv> epoch_ms now - 4 * 3600 * 1000"
  assumes "10 ^ 12 \<le> cutoff" and "cutoff < 10 ^ 13"
    and "c \<in> fst ` set cams"
    and "fb_read_snapshots fb c = map (\<lambda>e. (str_nat (fst e), snd e)) tsnaps"
    and "\<forall>e \<in> set tsnaps. 10 ^ 12 \<le> fst e \<and> fst e < 10 ^ 13"
  shows "fb_read_snapshots (cleanup_old_snapshots now cams fb) c =
           map (\<lambda>e. (str_nat (fst e), snd e)) (filter (\<lambda>e. \<not> int (fst e) < cutoff) tsnaps)"
proof -
  have nn: "0 \<le> cutoff" using assms(2) by simp
  have "(10::nat) ^ 12 \<le> nat cutoff" using assms(2) nn by (simp add: le_nat_iff)
  moreover have "nat cutoff < 10 ^ Suc 12" using assms(3) nn by (simp add: nat_less_iff)
  ultimately have "length (str_nat (nat cutoff)) = Suc 12" by (rule length_str_nat)
  then have lc: "length (str_int cutoff) = 13" using nn by (simp add: str_int_def)
  have lk: "\<forall>e \<in> set tsnaps. length (str_nat (fst e)) = length (str_int cutoff)"
  proof
    fix e
    assume "e \<in> set tsnaps"
    with assms(6) have "10 ^ 12 \<le> fst e" and "fst e < 10 ^ Suc 12" by simp_all
    then have "length (str_nat (fst e)) = Suc 12" by (rule length_str_nat)
    with lc show "length (str_nat (fst e)) = length (str_int cutoff)" by simp
  qed
  show ?thesis
    using cleanup_exact_for_equal_length_keys[of now c cams fb tsnaps] nn assms(4,5) lk
    unfolding cutoff_def by blast
qed

theorem cleanup_exact_on_written_keys_witness:
  "fb_read_snapshots
     (cleanup_old_snapshots example_clock (campaigns written_store) written_store) ''c1''
   = [(''1699985600000'', example_snapshot 20 4), (''1699999700000'', example_snapshot 30 6)]"
proof -
  have s: "str_nat 1699980000000 = ''1699980000000''"
      "str_nat 1699985600000 = ''1699985600000''"
      "str_nat 1699999700000 = ''1699999700000''"
    by (simp_all add: digit_char_def str_nat.simps)
  have p1: "10 ^ 12 \<le> epoch_ms example_clock - 4 * 3600 * 1000"
    and p2: "epoch_ms example_clock - 4 * 3600 * 1000 < 10 ^ 13"
    by (simp_all add: example_epoch)
  have p3: "''c1'' \<in> fst ` set (campaigns written_store)"
    by (simp add: written_store_def)
  have p4: "fb_read_snapshots written_store ''c1'' =
      map (\<lambda>e. (str_nat (fst e), snd e))
        [(1699980000000, example_snapshot 10 2), (1699985600000, example_snapshot 20 4),
         (1699999700000, example_snapshot 30 6)]"
    by (simp add: written_store_def fb_read_snapshots_def get_default_def s)
  have p5: "\<forall>e \<in> set [(1699980000000, example_snapshot 10 2),
                        (1699985600000, example_snapshot 20 4),
                        (1699999700000::nat, example_snapshot 30 6)].
              10 ^ 12 \<le> fst e \<and> fst e < 10 ^ 13"
    by simp
  show ?thesis
    using cleanup_exact_on_written_keys[OF p1 p2 p3 p4 p5]
    by (simp add: s example_epoch)
qed

end
